theory Spec2Isabelle
  imports Complex_Main "HOL-Library.Multiset"
begin

section \<open>Tensors\<close>

text \<open>
  The notebook computes on torch tensors. A tensor is modelled by its shape and its
  entries in row-major order (the layout of a contiguous tensor). The type \<open>'a\<close> of the
  entries is the dtype; the arithmetic of a dtype is a parameter of every operation
  (section ``The arithmetic of a dtype''), with two instances: the real numbers, where
  every operation is exact, and float32, where every operation rounds and can give an
  infinity or a NaN. The notebook runs in float32.
\<close>

datatype error = RuntimeError | ValueError | IndexError | ZeroDivisionError

record 'a tensor =
  shape :: "nat list"
  elems :: "'a list"

definition numel :: "nat list \<Rightarrow> nat" where
  "numel s = prod_list s"

text \<open>Every torch tensor has as many entries as its shape says.\<close>

definition wf_tensor :: "'a tensor \<Rightarrow> bool" where
  "wf_tensor t = (length (elems t) = numel (shape t))"

text \<open>An exception propagates through the statements that follow it.\<close>

fun ebind :: "error + 'a \<Rightarrow> ('a \<Rightarrow> error + 'b) \<Rightarrow> error + 'b" where
  "ebind (Inl e) f = Inl e"
| "ebind (Inr x) f = f x"

subsection \<open>Broadcasting\<close>

text \<open>
  torch aligns two shapes at their trailing dimension; two sizes are compatible when
  they are equal or one of them is 1, and a missing dimension counts as 1.
  \<open>bcast_rev\<close> works on the reversed shapes, trailing dimension first.
\<close>

fun bcast_rev :: "nat list \<Rightarrow> nat list \<Rightarrow> nat list option" where
  "bcast_rev [] ys = Some ys"
| "bcast_rev xs [] = Some xs"
| "bcast_rev (x # xs) (y # ys) =
     (if x = y \<or> y = 1 then map_option ((#) x) (bcast_rev xs ys)
      else if x = 1 then map_option ((#) y) (bcast_rev xs ys)
      else None)"

definition broadcast_shapes :: "nat list \<Rightarrow> nat list \<Rightarrow> nat list option" where
  "broadcast_shapes a b = map_option rev (bcast_rev (rev a) (rev b))"

text \<open>
  \<open>src_index ds es i\<close>: the row-major position, in an operand of (reversed) shape \<open>ds\<close>,
  of the entry that is read for position \<open>i\<close> of the result of (reversed) shape \<open>es\<close>.
  A dimension of size 1 is read at index 0 whatever the result index is.
\<close>

fun src_index :: "nat list \<Rightarrow> nat list \<Rightarrow> nat \<Rightarrow> nat" where
  "src_index (d # ds) (e # es) i =
     (if d = 1 then 0 else i mod e) + d * src_index ds es (i div e)"
| "src_index _ _ i = 0"

definition broadcast_op :: "('a \<Rightarrow> 'a \<Rightarrow> 'a) \<Rightarrow> 'a tensor \<Rightarrow> 'a tensor \<Rightarrow> error + 'a tensor" where
  "broadcast_op f a b =
     (case broadcast_shapes (shape a) (shape b) of
        None \<Rightarrow> Inl RuntimeError
      | Some s \<Rightarrow>
          Inr \<lparr>shape = s,
               elems = map (\<lambda>i. f (elems a ! src_index (rev (shape a)) (rev s) i)
                                   (elems b ! src_index (rev (shape b)) (rev s) i))
                           [0..<numel s]\<rparr>)"

text \<open>An in-place operation (\<open>sub_\<close>, \<open>div_\<close>) cannot change the shape of its target.\<close>

definition inplace_op :: "('a \<Rightarrow> 'a \<Rightarrow> 'a) \<Rightarrow> 'a tensor \<Rightarrow> 'a tensor \<Rightarrow> error + 'a tensor" where
  "inplace_op f a b =
     ebind (broadcast_op f a b)
       (\<lambda>r. if shape r = shape a then Inr r else Inl RuntimeError)"

definition tmap :: "('a \<Rightarrow> 'a) \<Rightarrow> 'a tensor \<Rightarrow> 'a tensor" where
  "tmap f t = t\<lparr>elems := map f (elems t)\<rparr>"

section \<open>The arithmetic of a dtype\<close>

text \<open>
  What the notebook needs of the entries of a tensor: the conversion of a Python number
  to the dtype (\<open>of_py\<close>), the four operations, \<open>sign\<close>, \<open>clamp\<close> of an entry between
  two bounds, and the test \<open>== 0\<close>.
\<close>

record 'a arith =
  of_py :: "real \<Rightarrow> 'a"
  f_add :: "'a \<Rightarrow> 'a \<Rightarrow> 'a"
  f_sub :: "'a \<Rightarrow> 'a \<Rightarrow> 'a"
  f_mul :: "'a \<Rightarrow> 'a \<Rightarrow> 'a"
  f_div :: "'a \<Rightarrow> 'a \<Rightarrow> 'a"
  f_sign :: "'a \<Rightarrow> 'a"
  f_clamp :: "'a \<Rightarrow> 'a \<Rightarrow> 'a \<Rightarrow> 'a"
  f_is_zero :: "'a \<Rightarrow> bool"

subsection \<open>Exact arithmetic\<close>

text \<open>\<open>torch.clamp(x, lo, hi)\<close> is \<open>min(max(x, lo), hi)\<close>.\<close>

definition clamp_val :: "real \<Rightarrow> real \<Rightarrow> real \<Rightarrow> real" where
  "clamp_val x lo hi = min (max x lo) hi"

definition exact :: "real arith" where
  "exact = \<lparr>of_py = (\<lambda>r. r), f_add = (\<lambda>x y. x + y), f_sub = (\<lambda>x y. x - y),
            f_mul = (\<lambda>x y. x * y), f_div = (\<lambda>x y. x / y), f_sign = sgn,
            f_clamp = clamp_val, f_is_zero = (\<lambda>x. x = 0)\<rparr>"

subsection \<open>float32\<close>

text \<open>
  A float32 is a real number on the binary32 grid, an infinity or a NaN. The two zeros
  of binary32 are one value here: the notebook never divides by a zero and never looks
  at the sign of one.
\<close>

datatype f32 = Fin real | PInf | NInf | NaN

definition pow2 :: "int \<Rightarrow> real" where
  "pow2 e = (if 0 \<le> e then 2 ^ nat e else 1 / 2 ^ nat (- e))"

text \<open>
  The binary exponent of \<open>a > 0\<close>, kept between -126 (below, the numbers are
  subnormal) and 127: \<open>halvings\<close> counts how often \<open>a \<ge> 1\<close> is halved before it falls
  below 2, \<open>doublings\<close> how often \<open>a < 1\<close> is doubled before it reaches 1.
\<close>

fun halvings :: "nat \<Rightarrow> real \<Rightarrow> nat" where
  "halvings 0 a = 0"
| "halvings (Suc k) a = (if a < 2 then 0 else Suc (halvings k (a / 2)))"

fun doublings :: "nat \<Rightarrow> real \<Rightarrow> nat" where
  "doublings 0 a = 0"
| "doublings (Suc k) a = (if 1 \<le> a then 0 else Suc (doublings k (2 * a)))"

definition exponent32 :: "real \<Rightarrow> int" where
  "exponent32 a = (if 1 \<le> a then int (halvings 127 a) else - int (doublings 126 a))"

text \<open>The nearest integer, the even one of two that are equally near.\<close>

definition round_half_even :: "real \<Rightarrow> int" where
  "round_half_even n =
     (let f = \<lfloor>n\<rfloor>; d = n - of_int f
      in if d < 1 / 2 then f else if 1 / 2 < d then f + 1 else if even f then f else f + 1)"

text \<open>
  Rounding to float32: to the nearest multiple of \<open>2\<^sup>e\<^sup>-\<^sup>2\<^sup>3\<close> for the exponent \<open>e\<close> of the
  number (24 bits of precision), ties to even, and to an infinity from \<open>2\<^sup>1\<^sup>2\<^sup>8\<close> on.
\<close>

definition round32 :: "real \<Rightarrow> f32" where
  "round32 x =
     (if x = 0 then Fin 0
      else let q = pow2 (exponent32 \<bar>x\<bar> - 23);
               y = of_int (round_half_even (x / q)) * q
           in if pow2 128 \<le> \<bar>y\<bar> then (if 0 < x then PInf else NInf) else Fin y)"

fun is_finite :: "f32 \<Rightarrow> bool" where
  "is_finite (Fin r) = True"
| "is_finite v = False"

text \<open>
  A pixel of an image in the range of the data: a float32 (a real number that rounding
  leaves where it is) between 0 and 1.
\<close>

fun unit_pixel :: "f32 \<Rightarrow> bool" where
  "unit_pixel (Fin x) = (0 \<le> x \<and> x \<le> 1 \<and> round32 x = Fin x)"
| "unit_pixel v = False"

fun neg32 :: "f32 \<Rightarrow> f32" where
  "neg32 (Fin a) = Fin (- a)"
| "neg32 PInf = NInf"
| "neg32 NInf = PInf"
| "neg32 NaN = NaN"

fun add32 :: "f32 \<Rightarrow> f32 \<Rightarrow> f32" where
  "add32 (Fin a) (Fin b) = round32 (a + b)"
| "add32 NaN y = NaN"
| "add32 x NaN = NaN"
| "add32 PInf NInf = NaN"
| "add32 NInf PInf = NaN"
| "add32 PInf y = PInf"
| "add32 x PInf = PInf"
| "add32 NInf y = NInf"
| "add32 x NInf = NInf"

definition sub32 :: "f32 \<Rightarrow> f32 \<Rightarrow> f32" where
  "sub32 x y = add32 x (neg32 y)"

text \<open>An infinity times \<open>a\<close>: NaN for \<open>a = 0\<close>.\<close>

definition inf_times :: "f32 \<Rightarrow> real \<Rightarrow> f32" where
  "inf_times i a = (if a = 0 then NaN else if 0 < a then i else neg32 i)"

fun mul32 :: "f32 \<Rightarrow> f32 \<Rightarrow> f32" where
  "mul32 (Fin a) (Fin b) = round32 (a * b)"
| "mul32 NaN y = NaN"
| "mul32 x NaN = NaN"
| "mul32 (Fin a) y = inf_times y a"
| "mul32 x (Fin b) = inf_times x b"
| "mul32 PInf y = y"
| "mul32 NInf y = neg32 y"

fun div32 :: "f32 \<Rightarrow> f32 \<Rightarrow> f32" where
  "div32 (Fin a) (Fin b) =
     (if b = 0 then (if a = 0 then NaN else if 0 < a then PInf else NInf)
      else round32 (a / b))"
| "div32 NaN y = NaN"
| "div32 x NaN = NaN"
| "div32 (Fin a) y = Fin 0"
| "div32 x (Fin b) = (if 0 \<le> b then x else neg32 x)"
| "div32 x y = NaN"

text \<open>
  \<open>torch.sign\<close> computes \<open>(0 < x) - (x < 0)\<close>: both comparisons are false for a NaN.
\<close>

fun sign32 :: "f32 \<Rightarrow> f32" where
  "sign32 (Fin a) = Fin (sgn a)"
| "sign32 PInf = Fin 1"
| "sign32 NInf = Fin (- 1)"
| "sign32 NaN = Fin 0"

fun le32 :: "f32 \<Rightarrow> f32 \<Rightarrow> bool" where
  "le32 (Fin a) (Fin b) = (a \<le> b)"
| "le32 NaN y = False"
| "le32 x NaN = False"
| "le32 NInf y = True"
| "le32 x PInf = True"
| "le32 x y = False"

text \<open>\<open>torch.clamp\<close> keeps a NaN entry.\<close>

definition clamp32 :: "f32 \<Rightarrow> f32 \<Rightarrow> f32 \<Rightarrow> f32" where
  "clamp32 x lo hi =
     (if x = NaN then NaN
      else let y = (if le32 x lo then lo else x) in if le32 hi y then hi else y)"

text \<open>
  A Python float is taken as the number it is written as, and rounded to float32 where
  it meets a tensor.
\<close>

definition float32 :: "f32 arith" where
  "float32 = \<lparr>of_py = round32, f_add = add32, f_sub = sub32, f_mul = mul32, f_div = div32,
              f_sign = sign32, f_clamp = clamp32, f_is_zero = (\<lambda>x. x = Fin 0)\<rparr>"

section \<open>The tensor operations the notebook calls\<close>

definition sign :: "'a arith \<Rightarrow> 'a tensor \<Rightarrow> 'a tensor" where
  "sign A t = tmap (f_sign A) t"

text \<open>A Python number times a tensor.\<close>

definition scale :: "'a arith \<Rightarrow> real \<Rightarrow> 'a tensor \<Rightarrow> 'a tensor" where
  "scale A c t = tmap (\<lambda>x. f_mul A (of_py A c) x) t"

definition add :: "'a arith \<Rightarrow> 'a tensor \<Rightarrow> 'a tensor \<Rightarrow> error + 'a tensor" where
  "add A a b = broadcast_op (f_add A) a b"

definition mul :: "'a arith \<Rightarrow> 'a tensor \<Rightarrow> 'a tensor \<Rightarrow> error + 'a tensor" where
  "mul A a b = broadcast_op (f_mul A) a b"

text \<open>\<open>torch.clamp(t, lo, hi)\<close> with Python numbers \<open>lo\<close> and \<open>hi\<close>, on every entry.\<close>

definition clamp :: "'a arith \<Rightarrow> 'a tensor \<Rightarrow> real \<Rightarrow> real \<Rightarrow> 'a tensor" where
  "clamp A t lo hi = tmap (\<lambda>x. f_clamp A x (of_py A lo) (of_py A hi)) t"

text \<open>\<open>torch.tensor(v).view(1, -1, 1, 1)\<close> of a list of Python numbers.\<close>

definition view_1c11 :: "'a arith \<Rightarrow> real list \<Rightarrow> 'a tensor" where
  "view_1c11 A v = \<lparr>shape = [1, length v, 1, 1], elems = map (of_py A) v\<rparr>"

text \<open>\<open>torch.as_tensor(v).view(-1, 1, 1)\<close> of a tuple of Python numbers.\<close>

definition view_c11 :: "'a arith \<Rightarrow> real list \<Rightarrow> 'a tensor" where
  "view_c11 A v = \<lparr>shape = [length v, 1, 1], elems = map (of_py A) v\<rparr>"

text \<open>\<open>t.squeeze()\<close> drops the dimensions of size 1.\<close>

definition squeeze :: "'a tensor \<Rightarrow> 'a tensor" where
  "squeeze t = t\<lparr>shape := filter (\<lambda>d. d \<noteq> 1) (shape t)\<rparr>"

text \<open>
  \<open>torchvision.transforms.Normalize(mean, std)\<close> applied to a tensor: it refuses a tensor
  of fewer than three dimensions and a zero in \<open>std\<close> with a ValueError, and returns
  \<open>tensor.clone().sub_(mean.view(-1, 1, 1)).div_(std.view(-1, 1, 1))\<close>.
\<close>

definition Normalize :: "'a arith \<Rightarrow> real list \<Rightarrow> real list \<Rightarrow> 'a tensor \<Rightarrow> error + 'a tensor" where
  "Normalize A mean std t =
     (if length (shape t) < 3 then Inl ValueError
      else if list_ex (\<lambda>s. f_is_zero A (of_py A s)) std then Inl ValueError
      else ebind (inplace_op (f_sub A) t (view_c11 A mean))
             (\<lambda>u. inplace_op (f_div A) u (view_c11 A std)))"

section \<open>The attack\<close>

text \<open>
  \<^verbatim>\<open>
  def fgsm_attack(image, epsilon, data_grad):
      sign_data_grad = data_grad.sign()
      perturbed_image = image + epsilon*sign_data_grad
      perturbed_image = torch.clamp(perturbed_image, 0, 1)
      return perturbed_image
  \<close>
  (\<open>img\<close> is the argument \<open>image\<close>; \<open>A\<close> is the arithmetic of the dtype of the tensors.)
\<close>

definition fgsm_attack :: "'a arith \<Rightarrow> 'a tensor \<Rightarrow> real \<Rightarrow> 'a tensor \<Rightarrow> error + 'a tensor" where
  "fgsm_attack A img epsilon data_grad =
     (let sign_data_grad = sign A data_grad
      in ebind (add A img (scale A epsilon sign_data_grad))
           (\<lambda>perturbed_image. Inr (clamp A perturbed_image 0 1)))"

text \<open>
  \<^verbatim>\<open>
  def denorm(batch, mean=[0.1307], std=[0.3081]):
      ...
      return batch * std.view(1, -1, 1, 1) + mean.view(1, -1, 1, 1)
  \<close>
  \<open>mean\<close> and \<open>std\<close> are the lists of per-channel values.
\<close>

definition denorm :: "'a arith \<Rightarrow> 'a tensor \<Rightarrow> real list \<Rightarrow> real list \<Rightarrow> error + 'a tensor" where
  "denorm A batch mean std =
     ebind (mul A batch (view_1c11 A std)) (\<lambda>scaled. add A scaled (view_1c11 A mean))"

definition mnist_mean :: "real list" where
  "mnist_mean = [1307 / 10000]"

definition mnist_std :: "real list" where
  "mnist_std = [3081 / 10000]"

text \<open>What \<open>fgsm_attack\<close> does to one pixel \<open>x\<close> with gradient entry \<open>g\<close>.\<close>

definition perturb_pixel :: "'a arith \<Rightarrow> real \<Rightarrow> 'a \<Rightarrow> 'a \<Rightarrow> 'a" where
  "perturb_pixel A epsilon x g =
     f_clamp A (f_add A x (f_mul A (of_py A epsilon) (f_sign A g))) (of_py A 0) (of_py A 1)"

section \<open>The model under attack\<close>

text \<open>
  The network is \<open>Net\<close> with weights read from a file, in evaluation mode: its dropout
  layers are the identity, so a forward pass is a function of the input. The weights and
  the automatic differentiation of torch are parameters of the model here:
  \<open>forward m data\<close> is the row of class scores \<open>model(data)\<close> of the one image in the
  batch (scores are only compared, and are taken as numbers), and
  \<open>input_grad m data target\<close> is \<open>data.grad\<close> after
  \<open>F.nll_loss(model(data), target).backward()\<close>.
\<close>

record 'a model =
  forward :: "'a tensor \<Rightarrow> real list"
  input_grad :: "'a tensor \<Rightarrow> nat \<Rightarrow> 'a tensor"

text \<open>
  \<open>output.max(1, keepdim=True)[1].item()\<close>: the index of the first maximal score; torch
  raises on an empty row.
\<close>

definition max_index :: "real list \<Rightarrow> error + nat" where
  "max_index xs =
     (if xs = [] then Inl IndexError
      else Inr (length (takeWhile (\<lambda>x. x \<noteq> fold max xs (hd xs)) xs)))"

section \<open>The test function\<close>

text \<open>
  The calls into the network that \<open>test\<close> makes, in the order it makes them. The
  notebook keeps no such log: the field \<open>calls\<close> of the state records the effect, and
  \<open>test\<close> does not return it.
\<close>

datatype 'a call = is_Forward: Forward "'a tensor" | is_Backward: Backward "'a tensor"

record 'a test_state =
  correct :: nat
  adv_examples :: "(nat \<times> nat \<times> 'a tensor) list"
  calls :: "'a call list"

text \<open>
  The body of \<open>for data, target in test_loader\<close>. The loader is built with
  \<open>batch_size=1\<close>: a batch is one image \<open>data\<close> and its label \<open>target\<close>. Moving a tensor
  to the device does not change its value.
\<close>

definition test_step ::
  "'a arith \<Rightarrow> 'a model \<Rightarrow> real \<Rightarrow> 'a test_state \<Rightarrow> 'a tensor \<times> nat \<Rightarrow> error + 'a test_state" where
  "test_step A model epsilon st b =
     (case b of (data, target) \<Rightarrow>
        let output = forward model data;
            st1 = st\<lparr>calls := calls st @ [Forward data]\<rparr>
        in ebind (max_index output) (\<lambda>init_pred.
           if init_pred \<noteq> target then Inr st1
           else
             let data_grad = input_grad model data target;
                 st2 = st1\<lparr>calls := calls st1 @ [Backward data]\<rparr>
             in ebind (denorm A data mnist_mean mnist_std) (\<lambda>data_denorm.
                ebind (fgsm_attack A data_denorm epsilon data_grad) (\<lambda>perturbed_data.
                ebind (Normalize A mnist_mean mnist_std perturbed_data) (\<lambda>perturbed_data_normalized.
                let output2 = forward model perturbed_data_normalized;
                    st3 = st2\<lparr>calls := calls st2 @ [Forward perturbed_data_normalized]\<rparr>
                in ebind (max_index output2) (\<lambda>final_pred.
                   if final_pred = target then
                     let st4 = st3\<lparr>correct := correct st3 + 1\<rparr>
                     in if epsilon = 0 \<and> length (adv_examples st4) < 5
                        then Inr (st4\<lparr>adv_examples := adv_examples st4 @
                                     [(init_pred, final_pred, squeeze perturbed_data)]\<rparr>)
                        else Inr st4
                   else
                     if length (adv_examples st3) < 5
                     then Inr (st3\<lparr>adv_examples := adv_examples st3 @
                                  [(init_pred, final_pred, squeeze perturbed_data)]\<rparr>)
                     else Inr st3))))))"

fun test_loop ::
  "'a arith \<Rightarrow> 'a model \<Rightarrow> real \<Rightarrow> 'a test_state \<Rightarrow> ('a tensor \<times> nat) list
   \<Rightarrow> error + 'a test_state" where
  "test_loop A model epsilon st [] = Inr st"
| "test_loop A model epsilon st (b # bs) =
     ebind (test_step A model epsilon st b) (\<lambda>st'. test_loop A model epsilon st' bs)"

text \<open>
  \<open>test_loader\<close> is the list of batches in the order the loader yields them in this pass.
\<close>

definition test_run ::
  "'a arith \<Rightarrow> 'a model \<Rightarrow> ('a tensor \<times> nat) list \<Rightarrow> real \<Rightarrow> error + 'a test_state" where
  "test_run A model test_loader epsilon =
     test_loop A model epsilon \<lparr>correct = 0, adv_examples = [], calls = []\<rparr> test_loader"

text \<open>
  \<open>final_acc = correct/float(len(test_loader))\<close>, which raises on an empty loader, and
  \<open>return final_acc, adv_examples\<close>. The line that \<open>test\<close> prints and its argument
  \<open>device\<close> have no part in the result.
\<close>

definition test ::
  "'a arith \<Rightarrow> 'a model \<Rightarrow> ('a tensor \<times> nat) list \<Rightarrow> real
   \<Rightarrow> error + real \<times> (nat \<times> nat \<times> 'a tensor) list" where
  "test A model test_loader epsilon =
     ebind (test_run A model test_loader epsilon)
       (\<lambda>st. if length test_loader = 0 then Inl ZeroDivisionError
             else Inr (real (correct st) / real (length test_loader), adv_examples st))"

section \<open>Notions the properties are stated with\<close>

text \<open>The attack on one batch: the perturbed image, its normalisation and its new class.\<close>

definition attack ::
  "'a arith \<Rightarrow> 'a model \<Rightarrow> real \<Rightarrow> 'a tensor \<times> nat \<Rightarrow> error + 'a tensor \<times> 'a tensor \<times> nat" where
  "attack A m epsilon b =
     ebind (denorm A (fst b) mnist_mean mnist_std) (\<lambda>dd.
     ebind (fgsm_attack A dd epsilon (input_grad m (fst b) (snd b))) (\<lambda>pd.
     ebind (Normalize A mnist_mean mnist_std pd) (\<lambda>pn.
     ebind (max_index (forward m pn)) (\<lambda>fp. Inr (pd, pn, fp)))))"

text \<open>The batch is classified correctly before the attack.\<close>

definition initially_correct :: "'a model \<Rightarrow> 'a tensor \<times> nat \<Rightarrow> bool" where
  "initially_correct m b = (max_index (forward m (fst b)) = Inr (snd b))"

text \<open>... and still after it.\<close>

definition still_correct :: "'a arith \<Rightarrow> 'a model \<Rightarrow> real \<Rightarrow> 'a tensor \<times> nat \<Rightarrow> bool" where
  "still_correct A m epsilon b =
     (initially_correct m b \<and>
      (case attack A m epsilon b of Inl e \<Rightarrow> False | Inr (pd, pn, fp) \<Rightarrow> fp = snd b))"

text \<open>The calls into the network for one batch.\<close>

definition sample_calls :: "'a arith \<Rightarrow> 'a model \<Rightarrow> real \<Rightarrow> 'a tensor \<times> nat \<Rightarrow> 'a call list" where
  "sample_calls A m epsilon b =
     (if initially_correct m b
      then (case attack A m epsilon b of
              Inl e \<Rightarrow> [Forward (fst b), Backward (fst b)]
            | Inr (pd, pn, fp) \<Rightarrow> [Forward (fst b), Backward (fst b), Forward pn])
      else [Forward (fst b)])"

text \<open>
  The entry that one batch offers to \<open>adv_examples\<close>: a batch that is attacked offers
  its perturbed image when the attack succeeds, or when it fails and epsilon is 0.
\<close>

definition offered ::
  "'a arith \<Rightarrow> 'a model \<Rightarrow> real \<Rightarrow> 'a tensor \<times> nat \<Rightarrow> (nat \<times> nat \<times> 'a tensor) list" where
  "offered A m epsilon b =
     (if initially_correct m b
      then (case attack A m epsilon b of
              Inl e \<Rightarrow> []
            | Inr (pd, pn, fp) \<Rightarrow>
                if fp = snd b \<longrightarrow> epsilon = 0 then [(snd b, fp, squeeze pd)] else [])
      else [])"

text \<open>
  The gradient that autograd stores for a tensor has the shape of that tensor, and the
  network has at least one class.
\<close>

definition autograd_shaped :: "'a model \<Rightarrow> bool" where
  "autograd_shaped m =
     (\<forall>d t. wf_tensor d \<longrightarrow> shape (input_grad m d t) = shape d \<and> wf_tensor (input_grad m d t))"

definition scores_nonempty :: "'a model \<Rightarrow> bool" where
  "scores_nonempty m = (\<forall>t. forward m t \<noteq> [])"

text \<open>
  What \<open>denorm\<close> with its default arguments and \<open>Normalize((0.1307,), (0.3081,))\<close> do
  to one entry.
\<close>

definition denorm_pixel :: "'a arith \<Rightarrow> 'a \<Rightarrow> 'a" where
  "denorm_pixel A x = f_add A (f_mul A x (of_py A (3081 / 10000))) (of_py A (1307 / 10000))"

definition normalize_pixel :: "'a arith \<Rightarrow> 'a \<Rightarrow> 'a" where
  "normalize_pixel A x = f_div A (f_sub A x (of_py A (1307 / 10000))) (of_py A (3081 / 10000))"

text \<open>The std of the notebook is not zero in the dtype (\<open>Normalize\<close> raises otherwise).\<close>

definition std_nonzero :: "'a arith \<Rightarrow> bool" where
  "std_nonzero A = (\<not> f_is_zero A (of_py A (3081 / 10000)))"

section \<open>Small networks and batches\<close>

text \<open>
  A batch of one image of one pixel, and a network of two classes on it: the score of
  class 0 is the sum of \<open>(x - a)\<^sup>2\<close> over the entries \<open>x\<close> of the input, the score of class
  1 is the constant \<open>c\<close>. The loss for target 0 is \<open>- (x - a)\<^sup>2\<close> summed, with gradient
  \<open>- 2 (x - a)\<close> at each entry; the loss for target 1 is constant.
\<close>

definition px :: "'a \<Rightarrow> 'a tensor" where
  "px x = \<lparr>shape = [1, 1, 1, 1], elems = [x]\<rparr>"

definition toy_model :: "real \<Rightarrow> real \<Rightarrow> real model" where
  "toy_model a c =
     \<lparr>forward = (\<lambda>t. [sum_list (map (\<lambda>x. (x - a)\<^sup>2) (elems t)), c]),
      input_grad = (\<lambda>t target. tmap (\<lambda>x. if target = 0 then - 2 * (x - a) else 0) t)\<rparr>"

text \<open>
  The same network computing in float32, on the first entry of its input. A score that
  is not finite counts as 0.
\<close>

fun val32 :: "f32 \<Rightarrow> real" where
  "val32 (Fin r) = r"
| "val32 v = 0"

definition toy_model32 :: "f32 \<Rightarrow> real \<Rightarrow> f32 model" where
  "toy_model32 a c =
     \<lparr>forward = (\<lambda>t. [val32 (mul32 (sub32 (hd (elems t)) a) (sub32 (hd (elems t)) a)), c]),
      input_grad = (\<lambda>t target.
         tmap (\<lambda>x. if target = 0 then mul32 (Fin (- 2)) (sub32 x a) else Fin 0) t)\<rparr>"

text \<open>
  The batch that the loader makes of a one-pixel image with the byte \<open>k\<close>: \<open>ToTensor\<close>
  divides by 255, \<open>Normalize((0.1307,), (0.3081,))\<close> subtracts the mean and divides by
  the std, all in float32.
\<close>

definition mnist_batch32 :: "nat \<Rightarrow> f32 tensor" where
  "mnist_batch32 k =
     px (div32 (sub32 (div32 (Fin (real k)) (round32 255)) (round32 (1307 / 10000)))
               (round32 (3081 / 10000)))"

text \<open>
  A float32 network that tells the batch of the byte 19 from what \<open>denorm\<close> and
  \<open>Normalize\<close> make of it: \<open>a\<close> is the float32 next to the entry of that batch, and
  \<open>c = 2\<^sup>-\<^sup>7\<^sup>0\<close>.
\<close>

definition ulp_model :: "f32 model" where
  "ulp_model = toy_model32 (Fin (- (12239079 / 67108864))) (1 / 2 ^ 70)"

text \<open>Six batches of one pixel, all of label 0.\<close>

definition six_batches :: "(real tensor \<times> nat) list" where
  "six_batches = map (\<lambda>x. (px x, 0)) [0, 1 / 100, 2 / 100, 3 / 100, 4 / 100, 5 / 100]"

text \<open>A batch of one image of one row of three pixels.\<close>

definition row3 :: "'a \<Rightarrow> 'a \<Rightarrow> 'a \<Rightarrow> 'a tensor" where
  "row3 a b c = \<lparr>shape = [1, 1, 1, 3], elems = [a, b, c]\<rparr>"

section \<open>Broadcasting two tensors\<close>

lemma src_index_same: "i < prod_list s \<Longrightarrow> src_index s s i = i"
proof (induction s arbitrary: i)
  case Nil
  then show ?case by simp
next
  case (Cons d ds)
  have dpos: "0 < d" using Cons.prems by (cases d) auto
  have "i div d < prod_list ds"
    using Cons.prems dpos by (simp add: less_mult_imp_div_less mult.commute)
  then have "src_index ds ds (i div d) = i div d" by (rule Cons.IH)
  then show ?case by (simp add: mult.commute)
qed

lemma map_upt_nth2:
  "length xs = n \<Longrightarrow> length ys = n \<Longrightarrow> map (\<lambda>i. f (xs ! i) (ys ! i)) [0..<n] = map2 f xs ys"
  by (rule nth_equalityI) auto

lemma src_index_pad: "i < prod_list xs \<Longrightarrow> src_index xs (xs @ zs) i = i"
proof (induction xs arbitrary: i)
  case Nil
  then show ?case by simp
next
  case (Cons d ds)
  have dpos: "0 < d" using Cons.prems by (cases d) auto
  have "i div d < prod_list ds"
    using Cons.prems dpos by (simp add: less_mult_imp_div_less mult.commute)
  then have "src_index ds (ds @ zs) (i div d) = i div d" by (rule Cons.IH)
  then show ?case by (simp add: mult.commute)
qed

lemma src_index_ones: "src_index (replicate k (Suc 0)) es i = 0"
proof (induction k arbitrary: es i)
  case 0
  then show ?case by simp
next
  case (Suc k)
  then show ?case by (cases es) simp_all
qed

lemma bcast_rev_ones: "bcast_rev xs (replicate k (Suc 0)) = Some (xs @ replicate (k - length xs) (Suc 0))"
proof (induction xs arbitrary: k)
  case Nil
  then show ?case by simp
next
  case (Cons x xs)
  then show ?case by (cases k) simp_all
qed

lemma bcast_rev_pad: "bcast_rev (xs @ zs) xs = Some (xs @ zs)"
proof (induction xs)
  case Nil
  then show ?case by (cases zs) simp_all
next
  case (Cons x xs)
  then show ?case by simp
qed

lemma src_index_bound_r:
  "bcast_rev as ds = Some es \<Longrightarrow> i < prod_list es \<Longrightarrow> src_index ds es i < prod_list ds"
proof (induction as ds arbitrary: es i rule: bcast_rev.induct)
  case (1 ys)
  then have es: "es = ys" by simp
  show ?case unfolding es using src_index_same [of i ys] 1 by simp
next
  case (2 v va)
  then show ?case by simp
next
  case (3 x xs y ys)
  then obtain e es' where es: "es = e # es'" and rest: "bcast_rev xs ys = Some es'"
    and e: "(y = e) \<or> (y = 1)"
    by (auto split: if_splits)
  have epos: "0 < e" using 3 es by (cases e) auto
  have "i div e < prod_list es'"
    using "3.prems"(2) es epos by (simp add: less_mult_imp_div_less mult.commute)
  then have ih: "src_index ys es' (i div e) < prod_list ys"
    using 3 rest by (auto split: if_splits)
  show ?case
  proof (cases "y = 1")
    case True
    then show ?thesis using ih es by simp
  next
    case False
    then have ye: "y = e" using e by simp
    have "i mod e < e" using epos by simp
    moreover have "e * src_index ys es' (i div e) + e \<le> e * prod_list ys"
    proof -
      have "Suc (src_index ys es' (i div e)) \<le> prod_list ys" using ih by simp
      then have "e * Suc (src_index ys es' (i div e)) \<le> e * prod_list ys"
        by (rule mult_le_mono2)
      then show ?thesis by simp
    qed
    ultimately show ?thesis using es ye False by simp
  qed
qed

lemma src_index_bound_l:
  "bcast_rev ds bs = Some es \<Longrightarrow> i < prod_list es \<Longrightarrow> src_index ds es i < prod_list ds"
proof (induction ds bs arbitrary: es i rule: bcast_rev.induct)
  case (1 ys)
  then show ?case by simp
next
  case (2 v va)
  then have es: "es = v # va" by simp
  from 2 have "i < prod_list (v # va)" by simp
  then show ?case unfolding es using src_index_same [of i "v # va"] by (simp del: src_index.simps)
next
  case (3 x xs y ys)
  then obtain e es' where es: "es = e # es'" and rest: "bcast_rev xs ys = Some es'"
    and e: "(x = e) \<or> (x = 1)"
    by (auto split: if_splits)
  have epos: "0 < e" using 3 es by (cases e) auto
  have "i div e < prod_list es'"
    using "3.prems"(2) es epos by (simp add: less_mult_imp_div_less mult.commute)
  then have ih: "src_index xs es' (i div e) < prod_list xs"
    using 3 rest by (auto split: if_splits)
  show ?case
  proof (cases "x = 1")
    case True
    then show ?thesis using ih es by simp
  next
    case False
    then have xe: "x = e" using e by simp
    have "i mod e < e" using epos by simp
    moreover have "e * src_index xs es' (i div e) + e \<le> e * prod_list xs"
    proof -
      have "Suc (src_index xs es' (i div e)) \<le> prod_list xs" using ih by simp
      then have "e * Suc (src_index xs es' (i div e)) \<le> e * prod_list xs"
        by (rule mult_le_mono2)
      then show ?thesis by simp
    qed
    ultimately show ?thesis using es xe False by simp
  qed
qed

text \<open>Every entry of a broadcast result is the function at an entry of each operand.\<close>

lemma broadcast_op_elems:
  assumes "wf_tensor a" and "wf_tensor b" and "broadcast_op f a b = Inr r"
    and "z \<in> set (elems r)"
  shows "\<exists>x \<in> set (elems a). \<exists>y \<in> set (elems b). z = f x y"
proof -
  obtain s where s: "broadcast_shapes (shape a) (shape b) = Some s"
    using assms(3) by (cases "broadcast_shapes (shape a) (shape b)") (auto simp: broadcast_op_def)
  then have br: "bcast_rev (rev (shape a)) (rev (shape b)) = Some (rev s)"
    by (auto simp: broadcast_shapes_def)
  have r: "elems r = map (\<lambda>i. f (elems a ! src_index (rev (shape a)) (rev s) i)
                                  (elems b ! src_index (rev (shape b)) (rev s) i)) [0..<numel s]"
    using assms(3) s by (auto simp: broadcast_op_def)
  then obtain i where i: "i < numel s"
    and z: "z = f (elems a ! src_index (rev (shape a)) (rev s) i)
                  (elems b ! src_index (rev (shape b)) (rev s) i)"
    using assms(4) by auto
  have "src_index (rev (shape a)) (rev s) i < length (elems a)"
    using src_index_bound_l [OF br] i assms(1) by (simp add: wf_tensor_def numel_def)
  moreover have "src_index (rev (shape b)) (rev s) i < length (elems b)"
    using src_index_bound_r [OF br] i assms(2) by (simp add: wf_tensor_def numel_def)
  ultimately show ?thesis using z by (metis nth_mem)
qed

lemma broadcast_op_tmap_r:
  assumes "wf_tensor b"
  shows "broadcast_op f a (tmap h b) = broadcast_op (\<lambda>x y. f x (h y)) a b"
proof (cases "broadcast_shapes (shape a) (shape b)")
  case None
  then show ?thesis by (simp add: broadcast_op_def tmap_def)
next
  case (Some s)
  then have br: "bcast_rev (rev (shape a)) (rev (shape b)) = Some (rev s)"
    by (auto simp: broadcast_shapes_def)
  have "\<And>i. i < numel s \<Longrightarrow> src_index (rev (shape b)) (rev s) i < length (elems b)"
    using src_index_bound_r [OF br] assms by (simp add: wf_tensor_def numel_def)
  then show ?thesis using Some by (simp add: broadcast_op_def tmap_def)
qed

lemma ebind_broadcast_op_tmap:
  "ebind (broadcast_op f a b) (\<lambda>t. Inr (tmap k t)) = broadcast_op (\<lambda>x y. k (f x y)) a b"
  by (cases "broadcast_shapes (shape a) (shape b)") (simp_all add: broadcast_op_def tmap_def)

lemma broadcast_op_pad:
  assumes "wf_tensor a" "wf_tensor b" "shape a = replicate j (Suc 0) @ shape b"
  shows "broadcast_op f a b = Inr \<lparr>shape = shape a, elems = map2 f (elems a) (elems b)\<rparr>"
proof -
  have ra: "rev (shape a) = rev (shape b) @ replicate j (Suc 0)" using assms(3) by simp
  have bs: "broadcast_shapes (shape a) (shape b) = Some (shape a)"
    unfolding broadcast_shapes_def ra using bcast_rev_pad [of "rev (shape b)" "replicate j (Suc 0)"]
    by (simp add: assms(3))
  have n: "numel (shape a) = numel (shape b)" using assms(3) by (simp add: numel_def)
  have la: "length (elems a) = numel (shape a)" and lb: "length (elems b) = numel (shape a)"
    using assms n by (simp_all add: wf_tensor_def)
  have ia: "\<And>i. i < numel (shape a) \<Longrightarrow> src_index (rev (shape a)) (rev (shape a)) i = i"
    using src_index_same by (simp add: numel_def)
  have ib: "\<And>i. i < numel (shape a) \<Longrightarrow> src_index (rev (shape b)) (rev (shape a)) i = i"
    unfolding ra using src_index_pad [of _ "rev (shape b)"] n by (simp add: numel_def)
  have "map (\<lambda>i. f (elems a ! src_index (rev (shape a)) (rev (shape a)) i)
                   (elems b ! src_index (rev (shape b)) (rev (shape a)) i)) [0..<numel (shape a)]
        = map (\<lambda>i. f (elems a ! i) (elems b ! i)) [0..<numel (shape a)]"
    using ia ib by simp
  also have "\<dots> = map2 f (elems a) (elems b)" using la lb by (rule map_upt_nth2)
  finally show ?thesis using bs by (simp add: broadcast_op_def)
qed

lemma broadcast_op_same_shape:
  assumes "wf_tensor a" "wf_tensor b" "shape b = shape a"
  shows "broadcast_op f a b = Inr \<lparr>shape = shape a, elems = map2 f (elems a) (elems b)\<rparr>"
  using broadcast_op_pad [of a b 0 f] assms by simp

text \<open>A tensor against a tensor of one entry whose dimensions are all 1.\<close>

lemma broadcast_op_scalar:
  assumes "wf_tensor a" "shape b = replicate k (Suc 0)" "elems b = [c]"
  shows "broadcast_op f a b =
         Inr \<lparr>shape = replicate (k - length (shape a)) (Suc 0) @ shape a,
              elems = map (\<lambda>x. f x c) (elems a)\<rparr>"
proof -
  let ?s = "replicate (k - length (shape a)) (Suc 0) @ shape a"
  have rs: "rev ?s = rev (shape a) @ replicate (k - length (shape a)) (Suc 0)" by simp
  have bs: "broadcast_shapes (shape a) (shape b) = Some ?s"
    unfolding broadcast_shapes_def assms(2) using bcast_rev_ones [of "rev (shape a)" k] by simp
  have n: "numel ?s = length (elems a)" using assms(1) by (simp add: numel_def wf_tensor_def)
  have ia: "\<And>i. i < length (elems a) \<Longrightarrow> src_index (rev (shape a)) (rev ?s) i = i"
    unfolding rs using src_index_pad [of _ "rev (shape a)"] assms(1)
    by (simp add: numel_def wf_tensor_def)
  have ib: "\<And>i. src_index (rev (shape b)) (rev ?s) i = 0"
    unfolding assms(2) using src_index_ones by simp
  have "map (\<lambda>i. f (elems a ! src_index (rev (shape a)) (rev ?s) i)
                   (elems b ! src_index (rev (shape b)) (rev ?s) i)) [0..<numel ?s]
        = map (\<lambda>i. f (elems a ! i) c) [0..<length (elems a)]"
    unfolding n using ia ib assms(3) by simp
  also have "\<dots> = map (\<lambda>x. f x c) (elems a)"
    by (rule nth_equalityI) auto
  finally show ?thesis using bs by (simp add: broadcast_op_def)
qed

section \<open>\<open>fgsm_attack\<close> entry by entry\<close>

lemma exact_simps [simp]:
  "of_py exact r = r" "f_add exact x y = x + y" "f_sub exact x y = x - y"
  "f_mul exact x y = x * y" "f_div exact x y = x / y" "f_sign exact x = sgn x"
  "f_clamp exact x lo hi = clamp_val x lo hi" "f_is_zero exact x = (x = 0)"
  by (simp_all add: exact_def)

lemma float32_simps [simp]:
  "of_py float32 r = round32 r" "f_add float32 u v = add32 u v" "f_sub float32 u v = sub32 u v"
  "f_mul float32 u v = mul32 u v" "f_div float32 u v = div32 u v" "f_sign float32 u = sign32 u"
  "f_clamp float32 u lo hi = clamp32 u lo hi" "f_is_zero float32 u = (u = Fin 0)"
  by (simp_all add: float32_def)

lemma fgsm_attack_broadcast:
  assumes "wf_tensor data_grad"
  shows "fgsm_attack A img epsilon data_grad = broadcast_op (perturb_pixel A epsilon) img data_grad"
proof -
  have "add A img (scale A epsilon (sign A data_grad))
        = broadcast_op (\<lambda>x g. f_add A x (f_mul A (of_py A epsilon) (f_sign A g))) img data_grad"
    using broadcast_op_tmap_r [OF assms, of "f_add A" img "\<lambda>g. f_mul A (of_py A epsilon) (f_sign A g)"]
    by (simp add: add_def scale_def sign_def tmap_def comp_def)
  then show ?thesis
    using ebind_broadcast_op_tmap [of "\<lambda>x g. f_add A x (f_mul A (of_py A epsilon) (f_sign A g))"
        img data_grad "\<lambda>x. f_clamp A x (of_py A 0) (of_py A 1)"]
    by (simp add: fgsm_attack_def clamp_def perturb_pixel_def [abs_def])
qed

lemma fgsm_attack_same_shape:
  assumes "wf_tensor img" and "wf_tensor data_grad" and "shape data_grad = shape img"
  shows "fgsm_attack A img epsilon data_grad
         = Inr \<lparr>shape = shape img,
                elems = map2 (perturb_pixel A epsilon) (elems img) (elems data_grad)\<rparr>"
  using fgsm_attack_broadcast [OF assms(2), of A img epsilon]
    broadcast_op_same_shape [OF assms, of "perturb_pixel A epsilon"]
  by simp

lemma fgsm_attack_pad:
  assumes "wf_tensor img" and "wf_tensor data_grad"
    and "shape img = replicate j (Suc 0) @ shape data_grad"
  shows "fgsm_attack A img epsilon data_grad
         = Inr \<lparr>shape = shape img,
                elems = map2 (perturb_pixel A epsilon) (elems img) (elems data_grad)\<rparr>"
  using fgsm_attack_broadcast [OF assms(2), of A img epsilon]
    broadcast_op_pad [OF assms, of "perturb_pixel A epsilon"]
  by simp

lemma wf_row3: "wf_tensor (row3 a b c)"
  by (simp add: row3_def wf_tensor_def numel_def)

lemma fgsm_attack_row3:
  "fgsm_attack A (row3 a b c) epsilon (row3 g h k)
   = Inr (row3 (perturb_pixel A epsilon a g) (perturb_pixel A epsilon b h)
               (perturb_pixel A epsilon c k))"
  using fgsm_attack_same_shape [OF wf_row3 [of a b c] wf_row3 [of g h k], of A epsilon]
  by (simp add: row3_def)

lemma wf_px: "wf_tensor (px x)"
  by (simp add: px_def wf_tensor_def numel_def)

lemma fgsm_attack_px:
  "fgsm_attack A (px x) epsilon (px g) = Inr (px (perturb_pixel A epsilon x g))"
  using fgsm_attack_same_shape [OF wf_px [of x] wf_px [of g], of A epsilon] by (simp add: px_def)

text \<open>
  C1. \<open>fgsm_attack(image, epsilon, data_grad)\<close> is the element-wise computation
  \<open>clamp(image + epsilon * sign(data_grad), 0, 1)\<close>. In every arithmetic it is the
  broadcast of the function that sends a pixel \<open>x\<close> and a gradient entry \<open>g\<close> to the
  clamp of \<open>x\<close> plus epsilon times the sign of \<open>g\<close> (an exception included, when the
  shapes do not broadcast), and when the gradient has the shape of the image each pixel
  is combined with the gradient entry at the same position. In exact arithmetic that
  function is \<open>clamp(x + epsilon * sign(g), 0, 1)\<close> on real numbers.
\<close>

theorem fgsm_attack_elementwise:
  assumes "wf_tensor img" and "wf_tensor data_grad"
  shows "fgsm_attack A img epsilon data_grad
           = broadcast_op
               (\<lambda>x g. f_clamp A (f_add A x (f_mul A (of_py A epsilon) (f_sign A g)))
                         (of_py A 0) (of_py A 1))
               img data_grad
         \<and> (shape data_grad = shape img \<longrightarrow>
              fgsm_attack A img epsilon data_grad
                = Inr \<lparr>shape = shape img,
                       elems = map2
                         (\<lambda>x g. f_clamp A (f_add A x (f_mul A (of_py A epsilon) (f_sign A g)))
                                   (of_py A 0) (of_py A 1))
                         (elems img) (elems data_grad)\<rparr>)
         \<and> (\<forall>rimg rgrad. wf_tensor rimg \<and> wf_tensor rgrad \<longrightarrow>
              fgsm_attack exact rimg epsilon rgrad
                = broadcast_op (\<lambda>x g. clamp_val (x + epsilon * sgn g) 0 1) rimg rgrad
              \<and> (shape rgrad = shape rimg \<longrightarrow>
                   fgsm_attack exact rimg epsilon rgrad
                     = Inr \<lparr>shape = shape rimg,
                            elems = map2 (\<lambda>x g. clamp_val (x + epsilon * sgn g) 0 1)
                                      (elems rimg) (elems rgrad)\<rparr>))"
proof (intro conjI allI impI)
  show "fgsm_attack A img epsilon data_grad
        = broadcast_op
            (\<lambda>x g. f_clamp A (f_add A x (f_mul A (of_py A epsilon) (f_sign A g)))
                      (of_py A 0) (of_py A 1))
            img data_grad"
    using fgsm_attack_broadcast [OF assms(2), of A img epsilon]
    by (simp add: perturb_pixel_def [abs_def])
next
  assume "shape data_grad = shape img"
  from fgsm_attack_same_shape [OF assms this, of A epsilon]
  show "fgsm_attack A img epsilon data_grad
        = Inr \<lparr>shape = shape img,
               elems = map2
                 (\<lambda>x g. f_clamp A (f_add A x (f_mul A (of_py A epsilon) (f_sign A g)))
                           (of_py A 0) (of_py A 1))
                 (elems img) (elems data_grad)\<rparr>"
    by (simp add: perturb_pixel_def [abs_def])
next
  fix rimg rgrad :: "real tensor"
  assume "wf_tensor rimg \<and> wf_tensor rgrad"
  then show "fgsm_attack exact rimg epsilon rgrad
             = broadcast_op (\<lambda>x g. clamp_val (x + epsilon * sgn g) 0 1) rimg rgrad"
    using fgsm_attack_broadcast [of rgrad exact rimg epsilon]
    by (simp add: perturb_pixel_def [abs_def])
next
  fix rimg rgrad :: "real tensor"
  assume w: "wf_tensor rimg \<and> wf_tensor rgrad" and s: "shape rgrad = shape rimg"
  from w have w1: "wf_tensor rimg" and w2: "wf_tensor rgrad" by simp_all
  from fgsm_attack_same_shape [OF w1 w2 s, of exact epsilon]
  show "fgsm_attack exact rimg epsilon rgrad
        = Inr \<lparr>shape = shape rimg,
               elems = map2 (\<lambda>x g. clamp_val (x + epsilon * sgn g) 0 1)
                         (elems rimg) (elems rgrad)\<rparr>"
    by (simp add: perturb_pixel_def [abs_def])
qed

theorem fgsm_attack_elementwise_witness:
  "wf_tensor (row3 (1 / 10) (1 / 2) (9 / 10 :: real)) \<and> wf_tensor (row3 (- 2) 0 (5 :: real))
   \<and> shape (row3 (- 2) 0 (5 :: real)) = shape (row3 (1 / 10) (1 / 2) (9 / 10 :: real))
   \<and> fgsm_attack exact (row3 (1 / 10) (1 / 2) (9 / 10)) (1 / 4) (row3 (- 2) 0 5)
       = Inr (row3 0 (1 / 2) 1)"
proof -
  have s: "shape (row3 (- 2) 0 (5 :: real)) = shape (row3 (1 / 10) (1 / 2) (9 / 10 :: real))"
    by (simp add: row3_def)
  have "fgsm_attack exact (row3 (1 / 10) (1 / 2) (9 / 10)) (1 / 4) (row3 (- 2) 0 5)
        = Inr \<lparr>shape = shape (row3 (1 / 10) (1 / 2) (9 / 10 :: real)),
               elems = map2 (\<lambda>x g. clamp_val (x + 1 / 4 * sgn g) 0 1)
                         (elems (row3 (1 / 10) (1 / 2) (9 / 10))) (elems (row3 (- 2) 0 5))\<rparr>"
    using fgsm_attack_elementwise [OF wf_row3 [of "1 / 10 :: real" "1 / 2" "9 / 10"]
        wf_row3 [of "- 2 :: real" 0 5], of exact "1 / 4"] s
      wf_row3 [of "1 / 10 :: real" "1 / 2" "9 / 10"] wf_row3 [of "- 2 :: real" 0 5]
    by blast
  also have "\<dots> = Inr (row3 0 (1 / 2) 1)"
    by (simp add: row3_def clamp_val_def)
  finally show ?thesis using s by (simp add: wf_row3)
qed

section \<open>Rounding to float32\<close>

lemma halvings_numeral:
  "halvings (numeral v) a = (if a < 2 then 0 else Suc (halvings (pred_numeral v) (a / 2)))"
  by (simp add: numeral_eq_Suc)

lemma doublings_numeral:
  "doublings (numeral v) a = (if 1 \<le> a then 0 else Suc (doublings (pred_numeral v) (2 * a)))"
  by (simp add: numeral_eq_Suc)

lemmas round32_eval = round32_def exponent32_def halvings_numeral doublings_numeral pow2_def
  round_half_even_def Let_def

lemma round32_0: "round32 0 = Fin 0"
  by (simp add: round32_def)

lemma round32_1: "round32 1 = Fin 1"
  by (simp add: round32_eval)

lemma round32_not_NaN: "round32 x \<noteq> NaN"
  by (simp add: round32_def Let_def)

lemma round_half_even_error: "\<bar>of_int (round_half_even n) - n\<bar> \<le> 1 / 2"
proof -
  have "of_int \<lfloor>n\<rfloor> \<le> n" "n < of_int \<lfloor>n\<rfloor> + 1" by linarith+
  then show ?thesis by (auto simp: round_half_even_def Let_def)
qed

lemma pow2_pos: "0 < pow2 e"
  by (simp add: pow2_def)

lemma pow2_powr: "pow2 e = 2 powr (real_of_int e)"
proof (cases "0 \<le> e")
  case True
  then have "2 powr (real_of_int e) = 2 powr (real (nat e))" by simp
  also have "\<dots> = 2 ^ nat e" by (simp add: powr_realpow)
  finally show ?thesis using True by (simp add: pow2_def)
next
  case False
  then have "2 powr (real_of_int e) = 2 powr (- real (nat (- e)))" by simp
  also have "\<dots> = 1 / 2 ^ nat (- e)" by (simp add: powr_minus powr_realpow divide_inverse)
  finally show ?thesis using False by (simp add: pow2_def)
qed

lemma pow2_shift: "pow2 (e - 23) = pow2 e / 2 ^ 23"
proof -
  have "pow2 (e - 23) = 2 powr (real_of_int e - 23)" by (simp add: pow2_powr)
  also have "\<dots> = 2 powr (real_of_int e) / 2 powr 23" by (rule powr_diff)
  also have "2 powr 23 = (2::real) ^ 23" using powr_realpow [of 2 23] by simp
  finally show ?thesis by (simp add: pow2_powr)
qed

lemma halvings_le: "1 \<le> a \<Longrightarrow> 2 ^ halvings k a \<le> a"
proof (induction k arbitrary: a)
  case 0
  then show ?case by simp
next
  case (Suc k)
  show ?case
  proof (cases "a < 2")
    case True
    then show ?thesis using Suc.prems by simp
  next
    case False
    then have "1 \<le> a / 2" by simp
    from Suc.IH [OF this] have "2 * 2 ^ halvings k (a / 2) \<le> a" by simp
    then show ?thesis using False by simp
  qed
qed

lemma doublings_le: "0 < a \<Longrightarrow> doublings k a = k \<or> 1 \<le> a * 2 ^ doublings k a"
proof (induction k arbitrary: a)
  case 0
  then show ?case by simp
next
  case (Suc k)
  show ?case
  proof (cases "1 \<le> a")
    case True
    then show ?thesis by simp
  next
    case False
    have "0 < 2 * a" using Suc.prems by simp
    from Suc.IH [OF this] False show ?thesis by (auto simp: mult.assoc mult.commute)
  qed
qed

lemma exponent32_le:
  assumes "0 < a"
  shows "pow2 (exponent32 a) \<le> max a (pow2 (- 126))"
proof (cases "1 \<le> a")
  case True
  then have "pow2 (exponent32 a) = 2 ^ halvings 127 a" by (simp add: exponent32_def pow2_def)
  then show ?thesis using halvings_le [OF True, of 127] by simp
next
  case False
  let ?d = "doublings 126 a"
  have e: "pow2 (exponent32 a) = 1 / 2 ^ ?d"
    using False by (simp add: exponent32_def pow2_def)
  from doublings_le [OF assms, of 126] show ?thesis
  proof
    assume "?d = 126"
    then show ?thesis using e by (simp add: pow2_def)
  next
    assume "1 \<le> a * 2 ^ ?d"
    then have "1 / 2 ^ ?d \<le> a" by (simp add: field_simps)
    then show ?thesis using e by simp
  qed
qed

lemma round32_error:
  assumes "round32 x = Fin v"
  shows "\<bar>v - x\<bar> \<le> max \<bar>x\<bar> (pow2 (- 126)) / 2 ^ 24"
proof (cases "x = 0")
  case True
  then show ?thesis using assms pow2_pos [of "- 126"] by (simp add: round32_def)
next
  case False
  let ?q = "pow2 (exponent32 \<bar>x\<bar> - 23)"
  have qpos: "0 < ?q" by (rule pow2_pos)
  have v: "v = of_int (round_half_even (x / ?q)) * ?q"
    using assms False by (simp add: round32_def Let_def split: if_splits)
  have "v - x = (of_int (round_half_even (x / ?q)) - x / ?q) * ?q"
    using qpos by (simp add: v left_diff_distrib)
  then have "\<bar>v - x\<bar> = \<bar>of_int (round_half_even (x / ?q)) - x / ?q\<bar> * ?q"
    using qpos by (simp only: abs_mult abs_of_pos)
  also have "\<dots> \<le> 1 / 2 * ?q"
    using round_half_even_error [of "x / ?q"] qpos by (intro mult_right_mono) simp_all
  also have "\<dots> = pow2 (exponent32 \<bar>x\<bar>) / 2 ^ 24" by (simp add: pow2_shift)
  also have "\<dots> \<le> max \<bar>x\<bar> (pow2 (- 126)) / 2 ^ 24"
    using exponent32_le [of "\<bar>x\<bar>"] False by (intro divide_right_mono) simp_all
  finally show ?thesis .
qed

section \<open>The range of the perturbed image\<close>

lemma clamp32_unit:
  "u \<noteq> NaN \<Longrightarrow> \<exists>v. clamp32 u (Fin 0) (Fin 1) = Fin v \<and> 0 \<le> v \<and> v \<le> 1"
  by (cases u) (auto simp: clamp32_def Let_def)

lemma clamp32_NaN: "clamp32 NaN lo hi = NaN"
  by (simp add: clamp32_def)

lemma perturb_pixel32:
  "perturb_pixel float32 epsilon x g
   = clamp32 (add32 x (mul32 (round32 epsilon) (sign32 g))) (Fin 0) (Fin 1)"
  by (simp add: perturb_pixel_def round32_0 round32_1)

lemma perturb_pixel32_range:
  "perturb_pixel float32 epsilon x g = NaN
   \<or> (\<exists>v. perturb_pixel float32 epsilon x g = Fin v \<and> 0 \<le> v \<and> v \<le> 1)"
  unfolding perturb_pixel32
  using clamp32_unit [of "add32 x (mul32 (round32 epsilon) (sign32 g))"] clamp32_NaN
  by (cases "add32 x (mul32 (round32 epsilon) (sign32 g)) = NaN") auto

lemma sign32_finite: "\<exists>s. sign32 g = Fin s"
  by (cases g) simp_all

lemma add32_finite: "is_finite x \<Longrightarrow> y \<noteq> NaN \<Longrightarrow> add32 x y \<noteq> NaN"
  by (cases x; cases y) (simp_all add: round32_not_NaN)

lemma mul32_finite: "mul32 (Fin a) (Fin b) \<noteq> NaN"
  by (simp add: round32_not_NaN)

lemma perturb_pixel32_finite:
  assumes "is_finite x" and "is_finite (round32 epsilon)"
  shows "\<exists>v. perturb_pixel float32 epsilon x g = Fin v \<and> 0 \<le> v \<and> v \<le> 1"
proof -
  obtain e where e: "round32 epsilon = Fin e" using assms(2) by (cases "round32 epsilon") auto
  obtain s where s: "sign32 g = Fin s" using sign32_finite by blast
  have "add32 x (mul32 (round32 epsilon) (sign32 g)) \<noteq> NaN"
    unfolding e s by (rule add32_finite [OF assms(1) mul32_finite])
  from clamp32_unit [OF this] show ?thesis by (simp add: perturb_pixel32)
qed

lemma perturb_pixel_exact_range:
  "0 \<le> perturb_pixel exact epsilon x g \<and> perturb_pixel exact epsilon x g \<le> 1"
  by (simp add: perturb_pixel_def clamp_val_def)

text \<open>
  C2, amended. In float32 every entry of the image that \<open>fgsm_attack\<close> returns is a
  number between 0 and 1 or is NaN, whatever the image, epsilon and the gradient are.
  It is a number between 0 and 1 when the pixels of the image are finite, the gradient
  holds no NaN and epsilon is finite as a float32. In exact arithmetic, where there is
  no NaN, every entry is between 0 and 1 with no condition on the inputs.
\<close>

theorem fgsm_attack_range:
  "(\<forall>r. fgsm_attack float32 img epsilon data_grad = Inr r \<longrightarrow>
      (\<forall>x \<in> set (elems r). x = NaN \<or> (\<exists>v. x = Fin v \<and> 0 \<le> v \<and> v \<le> 1))
      \<and> (wf_tensor img \<and> wf_tensor data_grad \<and> list_all is_finite (elems img)
           \<and> list_all (\<lambda>g. g \<noteq> NaN) (elems data_grad) \<and> is_finite (round32 epsilon)
          \<longrightarrow> (\<forall>x \<in> set (elems r). \<exists>v. x = Fin v \<and> 0 \<le> v \<and> v \<le> 1)))
   \<and> (\<forall>rimg rgrad r. fgsm_attack exact rimg epsilon rgrad = Inr r \<longrightarrow>
         (\<forall>x \<in> set (elems r). 0 \<le> x \<and> x \<le> 1))"
proof (intro conjI allI impI ballI)
  fix r x
  assume a: "fgsm_attack float32 img epsilon data_grad = Inr r" and x: "x \<in> set (elems r)"
  obtain p where "r = clamp float32 p 0 1"
    using a by (cases "add float32 img (scale float32 epsilon (sign float32 data_grad))")
      (auto simp: fgsm_attack_def)
  then obtain u where "x = clamp32 u (Fin 0) (Fin 1)"
    using x by (auto simp: clamp_def tmap_def round32_0 round32_1)
  then show "x = NaN \<or> (\<exists>v. x = Fin v \<and> 0 \<le> v \<and> v \<le> 1)"
    using clamp32_unit [of u] clamp32_NaN by (cases "u = NaN") auto
next
  fix r x
  assume a: "fgsm_attack float32 img epsilon data_grad = Inr r" and x: "x \<in> set (elems r)"
    and h: "wf_tensor img \<and> wf_tensor data_grad \<and> list_all is_finite (elems img)
            \<and> list_all (\<lambda>g. g \<noteq> NaN) (elems data_grad) \<and> is_finite (round32 epsilon)"
  from h have wi: "wf_tensor img" and wg: "wf_tensor data_grad" by simp_all
  have b: "broadcast_op (perturb_pixel float32 epsilon) img data_grad = Inr r"
    using a fgsm_attack_broadcast [OF wg, of float32 img epsilon] by simp
  from broadcast_op_elems [OF wi wg b x] obtain p g where
    p: "p \<in> set (elems img)" and xe: "x = perturb_pixel float32 epsilon p g" by blast
  have "is_finite p" using h p by (simp add: list_all_iff)
  from perturb_pixel32_finite [OF this, of epsilon g] h xe
  show "\<exists>v. x = Fin v \<and> 0 \<le> v \<and> v \<le> 1" by simp
next
  fix rimg rgrad :: "real tensor" and r x
  assume a: "fgsm_attack exact rimg epsilon rgrad = Inr r" and x: "x \<in> set (elems r)"
  obtain p where "r = clamp exact p 0 1"
    using a by (cases "add exact rimg (scale exact epsilon (sign exact rgrad))")
      (auto simp: fgsm_attack_def)
  then have "\<exists>u. x = clamp_val u 0 1" using x by (auto simp: clamp_def tmap_def)
  then show "0 \<le> x" and "x \<le> 1" by (auto simp: clamp_val_def)
qed

text \<open>
  C2, as stated, fails in float32. The Python number \<open>10\<^sup>3\<^sup>9\<close> is beyond the largest float32
  and becomes infinity; the sign of the gradient entry 0 is 0; infinity times 0 is NaN,
  the pixel 0.5 plus NaN is NaN, and \<open>torch.clamp\<close> keeps a NaN. The returned pixel is
  not in \<open>[0, 1]\<close>.
\<close>

theorem fgsm_attack_range_counterexample:
  "fgsm_attack float32 (px (Fin (1 / 2))) (10 ^ 39) (px (Fin 0)) = Inr (px NaN)"
  by (simp add: fgsm_attack_px perturb_pixel32 clamp32_NaN inf_times_def round32_eval)

theorem fgsm_attack_range_witness:
  "fgsm_attack float32 (row3 (Fin (- 3)) PInf (Fin (1 / 2))) 2 (row3 (Fin 1) (Fin (- 1)) NInf)
     = Inr (row3 (Fin 0) (Fin 1) (Fin 0))
   \<and> list_all (\<lambda>x. x = NaN \<or> (\<exists>v. x = Fin v \<and> 0 \<le> v \<and> v \<le> 1))
        (elems (row3 (Fin 0) (Fin 1) (Fin 0)))
   \<and> wf_tensor (row3 (Fin (- 3)) (Fin 7) (Fin (1 / 2)))
   \<and> wf_tensor (row3 (Fin 1) (Fin (- 1)) NInf)
   \<and> list_all is_finite (elems (row3 (Fin (- 3)) (Fin 7) (Fin (1 / 2))))
   \<and> list_all (\<lambda>g. g \<noteq> NaN) (elems (row3 (Fin 1) (Fin (- 1)) NInf))
   \<and> is_finite (round32 2)
   \<and> fgsm_attack float32 (row3 (Fin (- 3)) (Fin 7) (Fin (1 / 2))) 2 (row3 (Fin 1) (Fin (- 1)) NInf)
     = Inr (row3 (Fin 0) (Fin 1) (Fin 0))
   \<and> fgsm_attack exact (row3 (- 3) 7 (1 / 2)) 2 (row3 1 (- 1) 0) = Inr (row3 0 1 (1 / 2))
   \<and> list_all (\<lambda>x. 0 \<le> x \<and> x \<le> 1) (elems (row3 0 1 (1 / 2 :: real)))"
proof -
  have e1: "fgsm_attack float32 (row3 (Fin (- 3)) PInf (Fin (1 / 2))) 2
              (row3 (Fin 1) (Fin (- 1)) NInf) = Inr (row3 (Fin 0) (Fin 1) (Fin 0))"
    by (simp add: fgsm_attack_row3 perturb_pixel32 clamp32_def round32_eval)
  have e2: "fgsm_attack float32 (row3 (Fin (- 3)) (Fin 7) (Fin (1 / 2))) 2
              (row3 (Fin 1) (Fin (- 1)) NInf) = Inr (row3 (Fin 0) (Fin 1) (Fin 0))"
    by (simp add: fgsm_attack_row3 perturb_pixel32 clamp32_def round32_eval)
  have e3: "fgsm_attack exact (row3 (- 3) 7 (1 / 2)) 2 (row3 1 (- 1) 0) = Inr (row3 0 1 (1 / 2))"
    by (simp add: fgsm_attack_row3 perturb_pixel_def clamp_val_def)
  have f: "is_finite (round32 2)" by (simp add: round32_eval)
  have l: "list_all is_finite (elems (row3 (Fin (- 3)) (Fin 7) (Fin (1 / 2))))"
    "list_all (\<lambda>g. g \<noteq> NaN) (elems (row3 (Fin 1) (Fin (- 1)) NInf))"
    by (simp_all add: row3_def)
  note t1 = fgsm_attack_range [of "row3 (Fin (- 3)) PInf (Fin (1 / 2))" 2
      "row3 (Fin 1) (Fin (- 1)) NInf"]
  note t2 = fgsm_attack_range [of "row3 (Fin (- 3)) (Fin 7) (Fin (1 / 2))" 2
      "row3 (Fin 1) (Fin (- 1)) NInf"]
  have a1: "list_all (\<lambda>x. x = NaN \<or> (\<exists>v. x = Fin v \<and> 0 \<le> v \<and> v \<le> 1))
        (elems (row3 (Fin 0) (Fin 1) (Fin 0)))"
    using t1 e1 unfolding list_all_iff by blast
  have a3: "list_all (\<lambda>x. 0 \<le> x \<and> x \<le> 1) (elems (row3 0 1 (1 / 2 :: real)))"
    using t2 e3 unfolding list_all_iff by blast
  show ?thesis using e1 e2 e3 f l a1 a3 by (simp add: wf_row3)
qed

section \<open>The distance between the image and the perturbed image\<close>

lemma pow2_small: "pow2 (- 126) \<le> 1"
  by (simp add: pow2_def)

lemma round32_grid:
  assumes "x \<noteq> 0"
  shows "\<exists>y. \<bar>y - x\<bar> \<le> max \<bar>x\<bar> (pow2 (- 126)) / 2 ^ 24 \<and> (0 \<le> x \<longrightarrow> 0 \<le> y)
            \<and> round32 x = (if pow2 128 \<le> \<bar>y\<bar> then (if 0 < x then PInf else NInf) else Fin y)"
proof -
  let ?q = "pow2 (exponent32 \<bar>x\<bar> - 23)"
  let ?y = "of_int (round_half_even (x / ?q)) * ?q"
  have qpos: "0 < ?q" by (rule pow2_pos)
  have "?y - x = (of_int (round_half_even (x / ?q)) - x / ?q) * ?q"
    using qpos by (simp add: left_diff_distrib)
  then have "\<bar>?y - x\<bar> = \<bar>of_int (round_half_even (x / ?q)) - x / ?q\<bar> * ?q"
    using qpos by (simp only: abs_mult abs_of_pos)
  also have "\<dots> \<le> 1 / 2 * ?q"
    using round_half_even_error [of "x / ?q"] qpos by (intro mult_right_mono) simp_all
  also have "\<dots> = pow2 (exponent32 \<bar>x\<bar>) / 2 ^ 24" by (simp add: pow2_shift)
  also have "\<dots> \<le> max \<bar>x\<bar> (pow2 (- 126)) / 2 ^ 24"
    using exponent32_le [of "\<bar>x\<bar>"] assms by (intro divide_right_mono) simp_all
  finally have b: "\<bar>?y - x\<bar> \<le> max \<bar>x\<bar> (pow2 (- 126)) / 2 ^ 24" .
  have n: "0 \<le> x \<longrightarrow> 0 \<le> ?y"
  proof
    assume "0 \<le> x"
    then have "0 \<le> x / ?q" using qpos by simp
    then have "0 \<le> \<lfloor>x / ?q\<rfloor>" by simp
    then have "0 \<le> round_half_even (x / ?q)" by (simp add: round_half_even_def Let_def)
    then show "0 \<le> ?y" using qpos by simp
  qed
  have "round32 x = (if pow2 128 \<le> \<bar>?y\<bar> then (if 0 < x then PInf else NInf) else Fin ?y)"
    using assms by (simp add: round32_def Let_def)
  then show ?thesis using b n by blast
qed

lemma round32_nonneg:
  assumes "0 \<le> x" and "round32 x = Fin v"
  shows "0 \<le> v"
proof (cases "x = 0")
  case True
  then show ?thesis using assms(2) by (simp add: round32_0)
next
  case False
  from round32_grid [OF False] assms show ?thesis by (auto split: if_splits)
qed

lemma round32_overflow:
  assumes "round32 x = PInf \<or> round32 x = NInf"
  shows "2 \<le> \<bar>x\<bar>"
proof (rule ccontr)
  assume c: "\<not> 2 \<le> \<bar>x\<bar>"
  have nz: "x \<noteq> 0" using assms by (auto simp: round32_0)
  from round32_grid [OF nz] obtain y where
    b: "\<bar>y - x\<bar> \<le> max \<bar>x\<bar> (pow2 (- 126)) / 2 ^ 24"
    and r: "round32 x = (if pow2 128 \<le> \<bar>y\<bar> then (if 0 < x then PInf else NInf) else Fin y)"
    by blast
  have "max \<bar>x\<bar> (pow2 (- 126)) \<le> 2" using c pow2_small by simp
  then have "max \<bar>x\<bar> (pow2 (- 126)) / 2 ^ 24 \<le> 2" by simp
  then have "\<bar>y\<bar> < 5" using b c by linarith
  moreover have "(5::real) \<le> pow2 128" by (simp add: pow2_def)
  ultimately have "round32 x = Fin y" using r by simp
  then show False using assms by simp
qed

lemma clamp32_Fin: "clamp32 (Fin w) (Fin 0) (Fin 1) = Fin (clamp_val w 0 1)"
  by (auto simp: clamp32_def clamp_val_def Let_def)

lemma clamp_val_contracts:
  "0 \<le> x \<Longrightarrow> x \<le> 1 \<Longrightarrow> \<bar>clamp_val w 0 1 - x\<bar> \<le> \<bar>w - x\<bar>"
  by (auto simp: clamp_val_def min_def max_def)

text \<open>Adding a finite float32 \<open>t\<close> to a pixel \<open>x\<close> between 0 and 1, and clamping.\<close>

lemma add_clamp32_close:
  assumes "0 \<le> x" and "x \<le> 1"
  shows "\<exists>v. clamp32 (add32 (Fin x) (Fin t)) (Fin 0) (Fin 1) = Fin v
            \<and> \<bar>v - x\<bar> \<le> \<bar>t\<bar> + (1 + \<bar>t\<bar>) / 2 ^ 24"
proof (cases "round32 (x + t)")
  case (Fin w)
  from round32_error [OF Fin] have "\<bar>w - (x + t)\<bar> \<le> max \<bar>x + t\<bar> (pow2 (- 126)) / 2 ^ 24" .
  moreover have "max \<bar>x + t\<bar> (pow2 (- 126)) \<le> 1 + \<bar>t\<bar>"
    using assms pow2_small by (simp add: abs_if)
  ultimately have "\<bar>w - (x + t)\<bar> \<le> (1 + \<bar>t\<bar>) / 2 ^ 24"
    by (meson divide_right_mono order_trans zero_le_numeral zero_le_power)
  then have "\<bar>w - x\<bar> \<le> \<bar>t\<bar> + (1 + \<bar>t\<bar>) / 2 ^ 24" by linarith
  then have "\<bar>clamp_val w 0 1 - x\<bar> \<le> \<bar>t\<bar> + (1 + \<bar>t\<bar>) / 2 ^ 24"
    using clamp_val_contracts [OF assms, of w] by linarith
  then show ?thesis using Fin by (simp add: clamp32_Fin)
next
  case PInf
  then have "2 \<le> \<bar>x + t\<bar>" using round32_overflow by blast
  then have "1 \<le> \<bar>t\<bar>" using assms by linarith
  moreover have "0 \<le> (1 + \<bar>t\<bar>) / 2 ^ 24" by simp
  ultimately have "\<bar>1 - x\<bar> \<le> \<bar>t\<bar> + (1 + \<bar>t\<bar>) / 2 ^ 24" using assms by linarith
  then show ?thesis using PInf by (simp add: clamp32_def)
next
  case NInf
  then have "2 \<le> \<bar>x + t\<bar>" using round32_overflow by blast
  then have "1 \<le> \<bar>t\<bar>" using assms by linarith
  moreover have "0 \<le> (1 + \<bar>t\<bar>) / 2 ^ 24" by simp
  ultimately have "\<bar>0 - x\<bar> \<le> \<bar>t\<bar> + (1 + \<bar>t\<bar>) / 2 ^ 24" using assms by linarith
  then show ?thesis using NInf by (simp add: clamp32_def)
next
  case NaN
  then show ?thesis using round32_not_NaN by blast
qed

lemma sign32_unit: "\<exists>s. sign32 g = Fin s \<and> \<bar>s\<bar> \<le> 1"
  by (cases g) (simp_all add: sgn_if)

lemma perturb_pixel32_close:
  assumes "unit_pixel p" and "0 \<le> epsilon" and "round32 epsilon = Fin e"
  shows "\<exists>x v. p = Fin x \<and> perturb_pixel float32 epsilon p g = Fin v
              \<and> \<bar>v - x\<bar> \<le> e + (1 + e) / 2 ^ 22"
proof -
  obtain x where p: "p = Fin x" and x: "0 \<le> x" "x \<le> 1"
    using assms(1) by (cases p) auto
  have e: "0 \<le> e" by (rule round32_nonneg [OF assms(2,3)])
  obtain s where s: "sign32 g = Fin s" and s1: "\<bar>s\<bar> \<le> 1" using sign32_unit by blast
  have es: "\<bar>e * s\<bar> \<le> e" using e s1 by (simp add: abs_mult mult_left_le)
  have pp: "perturb_pixel float32 epsilon p g
            = clamp32 (add32 (Fin x) (round32 (e * s))) (Fin 0) (Fin 1)"
    by (simp add: perturb_pixel32 assms(3) s p)
  show ?thesis
  proof (cases "round32 (e * s)")
    case (Fin t)
    from round32_error [OF Fin] have "\<bar>t - e * s\<bar> \<le> max \<bar>e * s\<bar> (pow2 (- 126)) / 2 ^ 24" .
    moreover have "max \<bar>e * s\<bar> (pow2 (- 126)) \<le> 1 + e" using es e pow2_small by simp
    ultimately have "\<bar>t - e * s\<bar> \<le> (1 + e) / 2 ^ 24"
      by (meson divide_right_mono order_trans zero_le_numeral zero_le_power)
    then have t: "\<bar>t\<bar> \<le> e + (1 + e) / 2 ^ 24" using es by linarith
    from add_clamp32_close [OF x, of t] obtain v where
      v: "clamp32 (add32 (Fin x) (Fin t)) (Fin 0) (Fin 1) = Fin v"
      and d: "\<bar>v - x\<bar> \<le> \<bar>t\<bar> + (1 + \<bar>t\<bar>) / 2 ^ 24" by blast
    have "\<bar>t\<bar> + (1 + \<bar>t\<bar>) / 2 ^ 24 \<le> e + (1 + e) / 2 ^ 22"
      using t e by (simp add: field_simps)
    then have "\<bar>v - x\<bar> \<le> e + (1 + e) / 2 ^ 22" using d by linarith
    then show ?thesis using p pp v Fin by simp
  next
    case PInf
    then have "2 \<le> \<bar>e * s\<bar>" using round32_overflow by blast
    then have "2 \<le> e" using es by linarith
    moreover have "0 \<le> (1 + e) / 2 ^ 22" using e by simp
    ultimately have "\<bar>1 - x\<bar> \<le> e + (1 + e) / 2 ^ 22" using x by linarith
    then show ?thesis using p pp PInf by (simp add: clamp32_def)
  next
    case NInf
    then have "2 \<le> \<bar>e * s\<bar>" using round32_overflow by blast
    then have "2 \<le> e" using es by linarith
    moreover have "0 \<le> (1 + e) / 2 ^ 22" using e by simp
    ultimately have "\<bar>0 - x\<bar> \<le> e + (1 + e) / 2 ^ 22" using x by linarith
    then show ?thesis using p pp NInf by (simp add: clamp32_def)
  next
    case NaN
    then show ?thesis using round32_not_NaN by blast
  qed
qed

lemma perturb_pixel32_zero:
  assumes "unit_pixel p"
  shows "perturb_pixel float32 0 p g = p"
proof -
  obtain x where p: "p = Fin x" and x: "0 \<le> x" "x \<le> 1" and r: "round32 x = Fin x"
    using assms by (cases p) auto
  obtain s where s: "sign32 g = Fin s" using sign32_finite by blast
  show ?thesis
    using x by (simp add: perturb_pixel32 round32_0 s p r clamp32_Fin clamp_val_def)
qed

text \<open>
  C5, amended. The image is float32 and epsilon is a Python number that torch turns into
  the float32 \<open>e\<close> before it multiplies. For a gradient of the shape of the image,
  \<open>epsilon \<ge> 0\<close> with \<open>e\<close> finite, and pixels that are float32 numbers between 0 and 1,
  \<open>fgsm_attack\<close> returns an image of the same shape, and each of its pixels is a number
  that differs from the pixel of the input by at most \<open>e + (1 + e) / 2\<^sup>2\<^sup>2\<close>, where \<open>e\<close>
  is within \<open>max epsilon 2\<^sup>-\<^sup>1\<^sup>2\<^sup>6 / 2\<^sup>2\<^sup>4\<close> of epsilon. For epsilon 0 the image is returned
  unchanged.
\<close>

theorem fgsm_attack_within_epsilon:
  assumes "wf_tensor img" and "wf_tensor data_grad" and "shape data_grad = shape img"
    and "0 \<le> epsilon" and "round32 epsilon = Fin e" and "list_all unit_pixel (elems img)"
  shows "\<exists>r. fgsm_attack float32 img epsilon data_grad = Inr r \<and> shape r = shape img
           \<and> length (elems r) = length (elems img)
           \<and> (\<forall>i < length (elems img). \<exists>x v. elems img ! i = Fin x \<and> elems r ! i = Fin v
                  \<and> \<bar>v - x\<bar> \<le> e + (1 + e) / 2 ^ 22)
           \<and> \<bar>e - epsilon\<bar> \<le> max epsilon (pow2 (- 126)) / 2 ^ 24
           \<and> (epsilon = 0 \<longrightarrow> r = img)"
proof -
  let ?r = "\<lparr>shape = shape img,
             elems = map2 (perturb_pixel float32 epsilon) (elems img) (elems data_grad)\<rparr>"
  have len: "length (elems data_grad) = length (elems img)"
    using assms(1-3) by (simp add: wf_tensor_def)
  have r: "fgsm_attack float32 img epsilon data_grad = Inr ?r"
    by (rule fgsm_attack_same_shape [OF assms(1-3)])
  have close: "\<forall>i < length (elems img). \<exists>x v. elems img ! i = Fin x \<and> elems ?r ! i = Fin v
                  \<and> \<bar>v - x\<bar> \<le> e + (1 + e) / 2 ^ 22"
  proof (intro allI impI)
    fix i
    assume i: "i < length (elems img)"
    then have "unit_pixel (elems img ! i)" using assms(6) by (simp add: list_all_length)
    from perturb_pixel32_close [OF this assms(4,5), of "elems data_grad ! i"] i len
    show "\<exists>x v. elems img ! i = Fin x \<and> elems ?r ! i = Fin v
                \<and> \<bar>v - x\<bar> \<le> e + (1 + e) / 2 ^ 22"
      by simp
  qed
  have err: "\<bar>e - epsilon\<bar> \<le> max epsilon (pow2 (- 126)) / 2 ^ 24"
    using round32_error [OF assms(5)] assms(4) by simp
  have same: "epsilon = 0 \<longrightarrow> ?r = img"
  proof
    assume z: "epsilon = 0"
    have "map2 (perturb_pixel float32 0) (elems img) (elems data_grad) = elems img"
      using assms(6) len
      by (intro nth_equalityI) (simp_all add: perturb_pixel32_zero list_all_length)
    then show "?r = img" using z by simp
  qed
  show ?thesis using r close err same len by auto
qed

theorem fgsm_attack_within_epsilon_witness:
  "wf_tensor (row3 (Fin (1 / 8)) (Fin (1 / 2)) (Fin (7 / 8)))
   \<and> wf_tensor (row3 (Fin (- 2)) (Fin 0) (Fin 5))
   \<and> shape (row3 (Fin (- 2)) (Fin 0) (Fin 5)) = shape (row3 (Fin (1 / 8)) (Fin (1 / 2)) (Fin (7 / 8)))
   \<and> (0 :: real) \<le> 1 / 4
   \<and> round32 (1 / 4) = Fin (1 / 4)
   \<and> list_all unit_pixel (elems (row3 (Fin (1 / 8)) (Fin (1 / 2)) (Fin (7 / 8))))
   \<and> (\<exists>r. fgsm_attack float32 (row3 (Fin (1 / 8)) (Fin (1 / 2)) (Fin (7 / 8))) (1 / 4)
             (row3 (Fin (- 2)) (Fin 0) (Fin 5)) = Inr r
          \<and> r = row3 (Fin 0) (Fin (1 / 2)) (Fin 1)
          \<and> (\<forall>i < length (elems (row3 (Fin (1 / 8)) (Fin (1 / 2)) (Fin (7 / 8)))).
                \<exists>x v. elems (row3 (Fin (1 / 8)) (Fin (1 / 2)) (Fin (7 / 8))) ! i = Fin x
                       \<and> elems r ! i = Fin v \<and> \<bar>v - x\<bar> \<le> 1 / 4 + (1 + 1 / 4) / 2 ^ 22))"
proof -
  have s: "shape (row3 (Fin (- 2)) (Fin 0) (Fin 5))
           = shape (row3 (Fin (1 / 8)) (Fin (1 / 2)) (Fin (7 / 8)))"
    by (simp add: row3_def)
  have e: "(0::real) \<le> 1 / 4" by simp
  have q: "round32 (1 / 4) = Fin (1 / 4)" by (simp add: round32_eval)
  have p: "list_all unit_pixel (elems (row3 (Fin (1 / 8)) (Fin (1 / 2)) (Fin (7 / 8))))"
    by (simp add: row3_def round32_eval)
  have v: "fgsm_attack float32 (row3 (Fin (1 / 8)) (Fin (1 / 2)) (Fin (7 / 8))) (1 / 4)
             (row3 (Fin (- 2)) (Fin 0) (Fin 5)) = Inr (row3 (Fin 0) (Fin (1 / 2)) (Fin 1))"
    by (simp add: fgsm_attack_row3 perturb_pixel32 clamp32_Fin clamp_val_def round32_eval)
  from fgsm_attack_within_epsilon [OF wf_row3 wf_row3 s e q p] v s e q p show ?thesis
    by (simp add: wf_row3)
qed

section \<open>\<open>denorm\<close> and \<open>Normalize\<close>\<close>

lemma denorm_scalar:
  assumes "wf_tensor batch"
  shows "denorm A batch [m] [s] =
         Inr \<lparr>shape = replicate (4 - length (shape batch)) (Suc 0) @ shape batch,
              elems = map (\<lambda>x. f_add A (f_mul A x (of_py A s)) (of_py A m)) (elems batch)\<rparr>"
proof -
  let ?sc = "\<lparr>shape = replicate (4 - length (shape batch)) (Suc 0) @ shape batch,
              elems = map (\<lambda>x. f_mul A x (of_py A s)) (elems batch)\<rparr>"
  have m1: "mul A batch (view_1c11 A [s]) = Inr ?sc"
    unfolding mul_def
    by (rule broadcast_op_scalar [OF assms]) (simp_all add: view_1c11_def numeral_eq_Suc)
  have wsc: "wf_tensor ?sc" using assms by (simp add: wf_tensor_def numel_def)
  have a1: "add A ?sc (view_1c11 A [m]) =
            Inr \<lparr>shape = replicate (4 - length (shape ?sc)) (Suc 0) @ shape ?sc,
                 elems = map (\<lambda>x. f_add A x (of_py A m)) (elems ?sc)\<rparr>"
    unfolding add_def
    by (rule broadcast_op_scalar [OF wsc]) (simp_all add: view_1c11_def numeral_eq_Suc)
  have "4 - length (shape ?sc) = 0" by simp
  then show ?thesis using m1 a1 by (simp add: denorm_def comp_def)
qed

lemma inplace_op_scalar:
  assumes "wf_tensor a" "shape b = replicate k (Suc 0)" "elems b = [c]" "k \<le> length (shape a)"
  shows "inplace_op f a b = Inr \<lparr>shape = shape a, elems = map (\<lambda>x. f x c) (elems a)\<rparr>"
  using broadcast_op_scalar [OF assms(1-3), of f] assms(4) by (simp add: inplace_op_def)

lemma Normalize_scalar:
  assumes "wf_tensor t" "3 \<le> length (shape t)" "\<not> f_is_zero A (of_py A s)"
  shows "Normalize A [m] [s] t
         = Inr \<lparr>shape = shape t,
                elems = map (\<lambda>x. f_div A (f_sub A x (of_py A m)) (of_py A s)) (elems t)\<rparr>"
proof -
  let ?u = "\<lparr>shape = shape t, elems = map (\<lambda>x. f_sub A x (of_py A m)) (elems t)\<rparr>"
  have s1: "inplace_op (f_sub A) t (view_c11 A [m]) = Inr ?u"
    by (rule inplace_op_scalar [OF assms(1), where k = 3])
      (simp_all add: view_c11_def assms(2), simp add: numeral_eq_Suc)
  have wu: "wf_tensor ?u" using assms(1) by (simp add: wf_tensor_def)
  have s2: "inplace_op (f_div A) ?u (view_c11 A [s]) =
            Inr \<lparr>shape = shape ?u, elems = map (\<lambda>x. f_div A x (of_py A s)) (elems ?u)\<rparr>"
    by (rule inplace_op_scalar [OF wu, where k = 3])
      (simp_all add: view_c11_def assms(2), simp add: numeral_eq_Suc)
  show ?thesis using assms(2,3) s1 s2 by (simp add: Normalize_def comp_def)
qed

lemma denorm_mnist:
  assumes "wf_tensor batch" and "4 \<le> length (shape batch)"
  shows "denorm A batch mnist_mean mnist_std
         = Inr \<lparr>shape = shape batch,
                elems = map (\<lambda>x. f_add A (f_mul A x (of_py A (3081 / 10000)))
                                    (of_py A (1307 / 10000))) (elems batch)\<rparr>"
  using denorm_scalar [OF assms(1), of A "1307 / 10000" "3081 / 10000"] assms(2)
  by (simp add: mnist_mean_def mnist_std_def)

lemma Normalize_mnist:
  assumes "wf_tensor t" and "3 \<le> length (shape t)" and "std_nonzero A"
  shows "Normalize A mnist_mean mnist_std t
         = Inr \<lparr>shape = shape t,
                elems = map (\<lambda>x. f_div A (f_sub A x (of_py A (1307 / 10000)))
                                    (of_py A (3081 / 10000))) (elems t)\<rparr>"
  unfolding mnist_mean_def mnist_std_def
  using assms(3) by (intro Normalize_scalar [OF assms(1,2)]) (simp add: std_nonzero_def)

lemma std_nonzero_exact: "std_nonzero exact"
  by (simp add: std_nonzero_def)

lemma Normalize_denorm_mnist:
  assumes "wf_tensor batch" and "4 \<le> length (shape batch)"
  shows "Normalize exact mnist_mean mnist_std
           \<lparr>shape = shape batch,
            elems = map (\<lambda>x. x * (3081 / 10000) + 1307 / 10000) (elems batch)\<rparr>
         = Inr batch"
proof -
  let ?d = "\<lparr>shape = shape batch,
             elems = map (\<lambda>x. x * (3081 / 10000) + 1307 / 10000) (elems batch)\<rparr>"
  have wd: "wf_tensor ?d" using assms(1) by (simp add: wf_tensor_def)
  have "3 \<le> length (shape ?d)" using assms(2) by simp
  from Normalize_mnist [OF wd this std_nonzero_exact] show ?thesis by (simp add: comp_def)
qed

text \<open>
  C7. In exact arithmetic, \<open>denorm\<close> with its default mean 0.1307 and std 0.3081
  multiplies every entry of a batch by the std and adds the mean, and
  \<open>Normalize((0.1307,), (0.3081,))\<close> applied to the result gives the batch back.
\<close>

theorem denorm_Normalize_roundtrip:
  assumes "wf_tensor batch" and "4 \<le> length (shape batch)"
  shows "\<exists>d. denorm exact batch mnist_mean mnist_std = Inr d
            \<and> elems d = map (\<lambda>x. x * (3081 / 10000) + 1307 / 10000) (elems batch)
            \<and> Normalize exact mnist_mean mnist_std d = Inr batch"
  using denorm_mnist [OF assms, of exact] Normalize_denorm_mnist [OF assms] by simp

theorem denorm_Normalize_roundtrip_witness:
  "wf_tensor (row3 0 1 (- 1 / 2 :: real)) \<and> 4 \<le> length (shape (row3 0 1 (- 1 / 2 :: real)))
   \<and> (\<exists>d. denorm exact (row3 0 1 (- 1 / 2)) mnist_mean mnist_std = Inr d
          \<and> elems d = map (\<lambda>x. x * (3081 / 10000) + 1307 / 10000) (elems (row3 0 1 (- 1 / 2)))
          \<and> Normalize exact mnist_mean mnist_std d = Inr (row3 0 1 (- 1 / 2)))"
proof -
  have r: "4 \<le> length (shape (row3 0 1 (- 1 / 2 :: real)))" by (simp add: row3_def)
  from denorm_Normalize_roundtrip [OF wf_row3 r] r show ?thesis by (simp add: wf_row3)
qed

section \<open>One batch, and the loop over the loader\<close>

lemma ebind_case: "ebind x f = (case x of Inl e \<Rightarrow> Inl e | Inr v \<Rightarrow> f v)"
  by (cases x) simp_all

text \<open>The state after one batch, when no exception is raised.\<close>

lemma test_step_skip:
  assumes "max_index (forward m (fst b)) = Inr p" and "p \<noteq> snd b"
  shows "test_step A m epsilon st b = Inr (st\<lparr>calls := calls st @ [Forward (fst b)]\<rparr>)"
  using assms by (cases b) (simp add: test_step_def Let_def)

lemma test_step_attack:
  assumes "initially_correct m b" and "attack A m epsilon b = Inr (pd, pn, fp)"
  shows "test_step A m epsilon st b =
         Inr (st\<lparr>correct := correct st + (if fp = snd b then 1 else 0),
                 adv_examples := adv_examples st @
                   (if (fp = snd b \<longrightarrow> epsilon = 0) \<and> length (adv_examples st) < 5
                    then [(snd b, fp, squeeze pd)] else []),
                 calls := calls st @ [Forward (fst b), Backward (fst b), Forward pn]\<rparr>)"
  using assms
  by (cases b)
    (auto simp: test_step_def attack_def initially_correct_def Let_def ebind_case
          split: sum.splits)

lemma test_step_Inr:
  assumes "test_step A m epsilon st b = Inr st'"
  shows "correct st' = correct st + (if still_correct A m epsilon b then 1 else 0)
       \<and> adv_examples st' = adv_examples st @
            (if length (adv_examples st) < 5 then offered A m epsilon b else [])
       \<and> calls st' = calls st @ sample_calls A m epsilon b"
proof (cases "initially_correct m b")
  case True
  then obtain r where r: "attack A m epsilon b = Inr r"
    using assms
    by (cases b; cases "attack A m epsilon b")
      (auto simp: test_step_def attack_def initially_correct_def Let_def ebind_case
            split: sum.splits)
  obtain pd pn fp where "r = (pd, pn, fp)" by (cases r) auto
  with r have a: "attack A m epsilon b = Inr (pd, pn, fp)" by simp
  show ?thesis
    using assms True a test_step_attack [OF True a, of st]
    by (auto simp: still_correct_def offered_def sample_calls_def)
next
  case False
  then obtain p where p: "max_index (forward m (fst b)) = Inr p" "p \<noteq> snd b"
    using assms
    by (cases b; cases "max_index (forward m (fst b))")
      (auto simp: test_step_def initially_correct_def Let_def)
  show ?thesis
    using assms False test_step_skip [OF p, of A epsilon st]
    by (auto simp: still_correct_def offered_def sample_calls_def)
qed

lemma test_loop_Inr:
  assumes "test_loop A m epsilon st bs = Inr st'"
  shows "correct st' = correct st + length (filter (still_correct A m epsilon) bs)
       \<and> calls st' = calls st @ concat (map (sample_calls A m epsilon) bs)"
  using assms
proof (induction bs arbitrary: st)
  case Nil
  then show ?case by simp
next
  case (Cons b bs)
  then obtain st1 where s1: "test_step A m epsilon st b = Inr st1"
    and l1: "test_loop A m epsilon st1 bs = Inr st'"
    by (cases "test_step A m epsilon st b") auto
  from test_step_Inr [OF s1] Cons.IH [OF l1] show ?case by simp
qed

lemma test_loop_adv:
  assumes "test_loop A m epsilon st bs = Inr st'" and "length (adv_examples st) \<le> 5"
  shows "adv_examples st' = take 5 (adv_examples st @ concat (map (offered A m epsilon) bs))"
  using assms
proof (induction bs arbitrary: st)
  case Nil
  then show ?case by simp
next
  case (Cons b bs)
  then obtain st1 where s1: "test_step A m epsilon st b = Inr st1"
    and l1: "test_loop A m epsilon st1 bs = Inr st'"
    by (cases "test_step A m epsilon st b") auto
  have o: "length (offered A m epsilon b) \<le> 1"
    by (auto simp: offered_def split: sum.splits)
  have a1: "adv_examples st1 = adv_examples st @
            (if length (adv_examples st) < 5 then offered A m epsilon b else [])"
    using test_step_Inr [OF s1] by simp
  show ?case
  proof (cases "length (adv_examples st) < 5")
    case True
    then have "length (adv_examples st1) \<le> 5" using a1 o by simp
    from Cons.IH [OF l1 this] a1 True show ?thesis by simp
  next
    case False
    then have full: "length (adv_examples st) = 5" using Cons.prems(2) by simp
    have "length (adv_examples st1) \<le> 5" using a1 False full by simp
    from Cons.IH [OF l1 this] a1 False full show ?thesis by simp
  qed
qed

lemma attack_total:
  assumes "autograd_shaped m" and "scores_nonempty m" and "std_nonzero A"
    and "wf_tensor (fst b)"
  shows "\<exists>r. attack A m epsilon b = Inr r"
proof -
  let ?data = "fst b"
  let ?g = "input_grad m ?data (snd b)"
  let ?j = "4 - length (shape ?data)"
  let ?dd = "\<lparr>shape = replicate ?j (Suc 0) @ shape ?data,
              elems = map (\<lambda>x. f_add A (f_mul A x (of_py A (3081 / 10000)))
                                  (of_py A (1307 / 10000))) (elems ?data)\<rparr>"
  let ?pd = "\<lparr>shape = shape ?dd,
              elems = map2 (perturb_pixel A epsilon) (elems ?dd) (elems ?g)\<rparr>"
  have g: "shape ?g = shape ?data" "wf_tensor ?g"
    using assms(1,4) by (simp_all add: autograd_shaped_def)
  have d: "denorm A ?data mnist_mean mnist_std = Inr ?dd"
    using denorm_scalar [OF assms(4), of A] by (simp add: mnist_mean_def mnist_std_def)
  have wdd: "wf_tensor ?dd" using assms(4) by (simp add: wf_tensor_def numel_def)
  have "shape ?dd = replicate ?j (Suc 0) @ shape ?g" using g(1) by simp
  from fgsm_attack_pad [OF wdd g(2) this]
  have f: "fgsm_attack A ?dd epsilon ?g = Inr ?pd" .
  have wpd: "wf_tensor ?pd"
    using assms(4) g by (simp add: wf_tensor_def numel_def)
  have "3 \<le> length (shape ?pd)" by simp
  from Normalize_mnist [OF wpd this assms(3)] obtain pn where
    n: "Normalize A mnist_mean mnist_std ?pd = Inr pn" by blast
  obtain fp where "max_index (forward m pn) = Inr fp"
    using assms(2) by (simp add: scores_nonempty_def max_index_def)
  then show ?thesis using d f n by (simp add: attack_def)
qed

lemma test_step_total:
  assumes "autograd_shaped m" and "scores_nonempty m" and "std_nonzero A"
    and "wf_tensor (fst b)"
  shows "\<exists>st'. test_step A m epsilon st b = Inr st'"
proof -
  obtain p where p: "max_index (forward m (fst b)) = Inr p"
    using assms(2) by (simp add: scores_nonempty_def max_index_def)
  show ?thesis
  proof (cases "p = snd b")
    case True
    then have ic: "initially_correct m b" using p by (simp add: initially_correct_def)
    obtain r where "attack A m epsilon b = Inr r" using attack_total [OF assms] by blast
    then obtain pd pn fp where "attack A m epsilon b = Inr (pd, pn, fp)" by (cases r) auto
    from test_step_attack [OF ic this] show ?thesis by blast
  next
    case False
    from test_step_skip [OF p False] show ?thesis by blast
  qed
qed

lemma test_loop_total:
  assumes "autograd_shaped m" and "scores_nonempty m" and "std_nonzero A"
    and "list_all (\<lambda>b. wf_tensor (fst b)) bs"
  shows "\<exists>st'. test_loop A m epsilon st bs = Inr st'"
  using assms(4)
proof (induction bs arbitrary: st)
  case Nil
  then show ?case by simp
next
  case (Cons b bs)
  then have "wf_tensor (fst b)" by simp
  from test_step_total [OF assms(1-3) this] obtain st1 where
    "test_step A m epsilon st b = Inr st1" by blast
  moreover obtain st' where "test_loop A m epsilon st1 bs = Inr st'"
    using Cons by auto
  ultimately show ?case by simp
qed


lemma test_Inr:
  assumes "test A m loader epsilon = Inr (acc, adv)"
  shows "loader \<noteq> []
       \<and> acc = real (length (filter (still_correct A m epsilon) loader)) / real (length loader)
       \<and> adv = take 5 (concat (map (offered A m epsilon) loader))"
proof -
  obtain st where st: "test_run A m loader epsilon = Inr st"
    using assms by (cases "test_run A m loader epsilon") (auto simp: test_def)
  then have ne: "loader \<noteq> []" and acc: "acc = real (correct st) / real (length loader)"
    and adv: "adv = adv_examples st"
    using assms by (auto simp: test_def split: if_splits)
  have l: "test_loop A m epsilon \<lparr>correct = 0, adv_examples = [], calls = []\<rparr> loader = Inr st"
    using st by (simp add: test_run_def)
  from test_loop_Inr [OF l] test_loop_adv [OF l] ne acc adv show ?thesis by simp
qed

lemma test_value:
  assumes "autograd_shaped m" and "scores_nonempty m" and "std_nonzero A"
    and "list_all (\<lambda>b. wf_tensor (fst b)) loader" and "loader \<noteq> []"
  shows "test A m loader epsilon
         = Inr (real (length (filter (still_correct A m epsilon) loader)) / real (length loader),
                take 5 (concat (map (offered A m epsilon) loader)))"
proof -
  obtain st where st: "test_run A m loader epsilon = Inr st"
    using test_loop_total [OF assms(1-4)] unfolding test_run_def by blast
  then obtain acc adv where r: "test A m loader epsilon = Inr (acc, adv)"
    using assms(5) by (simp add: test_def)
  from test_Inr [OF r] r show ?thesis by simp
qed

section \<open>One-pixel batches and the small networks\<close>

lemma denorm_px:
  "denorm A (px x) mnist_mean mnist_std = Inr (px (denorm_pixel A x))"
  using denorm_mnist [OF wf_px, of x A] by (simp add: px_def denorm_pixel_def)

lemma Normalize_px:
  "std_nonzero A \<Longrightarrow> Normalize A mnist_mean mnist_std (px x) = Inr (px (normalize_pixel A x))"
  using Normalize_mnist [OF wf_px, of x A] by (simp add: px_def normalize_pixel_def)

lemma squeeze_px: "squeeze (px x) = \<lparr>shape = [], elems = [x]\<rparr>"
  by (simp add: squeeze_def px_def)

lemma max_index_two: "max_index [u, v] = Inr (if v \<le> u then 0 else 1)"
  by (auto simp: max_index_def max_def)

lemma attack_px:
  assumes "std_nonzero A" and "input_grad m (px x) t = px g"
  shows "attack A m epsilon (px x, t) =
           ebind (max_index (forward m
                    (px (normalize_pixel A (perturb_pixel A epsilon (denorm_pixel A x) g)))))
             (\<lambda>fp. Inr (px (perturb_pixel A epsilon (denorm_pixel A x) g),
                         px (normalize_pixel A (perturb_pixel A epsilon (denorm_pixel A x) g)),
                         fp))"
  using assms by (simp add: attack_def denorm_px fgsm_attack_px Normalize_px)

subsection \<open>In exact arithmetic\<close>

lemma autograd_shaped_toy: "autograd_shaped (toy_model a c)"
  by (simp add: autograd_shaped_def toy_model_def tmap_def wf_tensor_def)

lemma scores_nonempty_toy: "scores_nonempty (toy_model a c)"
  by (simp add: scores_nonempty_def toy_model_def)

lemma forward_toy_px: "forward (toy_model a c) (px x) = [(x - a)\<^sup>2, c]"
  by (simp add: toy_model_def px_def)

lemma input_grad_toy_px:
  "input_grad (toy_model a c) (px x) t = px (if t = 0 then - 2 * (x - a) else 0)"
  by (simp add: toy_model_def px_def tmap_def)

text \<open>The gradient of the small network is the derivative of its loss for target 0.\<close>

lemma toy_loss_derivative:
  "((\<lambda>x. - (x - a)\<^sup>2) has_real_derivative - 2 * (x - a)) (at x)"
  by (auto intro!: derivative_eq_intros)

lemma initially_correct_toy_px:
  "initially_correct (toy_model a c) (px x, t) = ((if c \<le> (x - a)\<^sup>2 then 0 else 1) = t)"
  by (simp add: initially_correct_def forward_toy_px max_index_two)

lemma attack_toy_px:
  "attack exact (toy_model a c) epsilon (px x, t) =
     (let p = clamp_val (x * (3081 / 10000) + 1307 / 10000
                         + epsilon * sgn (if t = 0 then - 2 * (x - a) else 0)) 0 1;
          n = (p - 1307 / 10000) / (3081 / 10000)
      in Inr (px p, px n, if c \<le> (n - a)\<^sup>2 then 0 else 1))"
  using attack_px [OF std_nonzero_exact input_grad_toy_px [of a c x t], of epsilon]
  by (simp add: forward_toy_px max_index_two Let_def perturb_pixel_def denorm_pixel_def
      normalize_pixel_def)

lemma still_correct_toy_px:
  "still_correct exact (toy_model a c) epsilon (px x, t) =
     ((if c \<le> (x - a)\<^sup>2 then 0 else 1) = t \<and>
      (if c \<le> ((clamp_val (x * (3081 / 10000) + 1307 / 10000
                    + epsilon * sgn (if t = 0 then - 2 * (x - a) else 0)) 0 1
                   - 1307 / 10000) / (3081 / 10000) - a)\<^sup>2
       then 0 else 1) = t)"
  by (simp add: still_correct_def initially_correct_toy_px attack_toy_px Let_def)

lemma offered_toy_px:
  "offered exact (toy_model a c) epsilon (px x, t) =
     (if (if c \<le> (x - a)\<^sup>2 then 0 else 1) = t
      then (let p = clamp_val (x * (3081 / 10000) + 1307 / 10000
                               + epsilon * sgn (if t = 0 then - 2 * (x - a) else 0)) 0 1;
                fp = (if c \<le> ((p - 1307 / 10000) / (3081 / 10000) - a)\<^sup>2 then 0 else 1)
            in if fp = t \<longrightarrow> epsilon = 0 then [(t, fp, \<lparr>shape = [], elems = [p]\<rparr>)] else [])
      else [])"
  by (simp add: offered_def initially_correct_toy_px attack_toy_px Let_def squeeze_px)

lemma sample_calls_toy_px:
  "sample_calls exact (toy_model a c) epsilon (px x, t) =
     (if (if c \<le> (x - a)\<^sup>2 then 0 else 1) = t
      then [Forward (px x), Backward (px x),
            Forward (px ((clamp_val (x * (3081 / 10000) + 1307 / 10000
                            + epsilon * sgn (if t = 0 then - 2 * (x - a) else 0)) 0 1
                          - 1307 / 10000) / (3081 / 10000)))]
      else [Forward (px x)])"
  by (simp add: sample_calls_def initially_correct_toy_px attack_toy_px Let_def)

lemma test_toy:
  assumes "list_all (\<lambda>b. wf_tensor (fst b)) loader" and "loader \<noteq> []"
  shows "test exact (toy_model a c) loader epsilon
         = Inr (real (length (filter (still_correct exact (toy_model a c) epsilon) loader))
                  / real (length loader),
                take 5 (concat (map (offered exact (toy_model a c) epsilon) loader)))"
  by (rule test_value [OF autograd_shaped_toy scores_nonempty_toy std_nonzero_exact assms])

section \<open>The accuracy that \<open>test\<close> returns\<close>




lemma filter_length_mono:
  "(\<And>x. x \<in> set xs \<Longrightarrow> P x \<Longrightarrow> Q x) \<Longrightarrow> length (filter P xs) \<le> length (filter Q xs)"
  by (induction xs) auto




section \<open>One pass over the loader\<close>

lemma sample_calls_shape:
  "sample_calls A m epsilon b \<noteq> []
   \<and> hd (sample_calls A m epsilon b) = Forward (fst b)
   \<and> length (filter is_Forward (sample_calls A m epsilon b)) \<le> 2
   \<and> length (filter is_Backward (sample_calls A m epsilon b)) \<le> 1"
  by (auto simp: sample_calls_def split: sum.splits)

lemma filter_concat_bound:
  "(\<And>x. x \<in> set xs \<Longrightarrow> length (filter P (f x)) \<le> k)
   \<Longrightarrow> length (filter P (concat (map f xs))) \<le> k * length xs"
proof (induction xs)
  case Nil
  then show ?case by simp
next
  case (Cons x xs)
  have "length (filter P (f x)) \<le> k" using Cons.prems by simp
  moreover have "length (filter P (concat (map f xs))) \<le> k * length xs"
    using Cons by simp
  ultimately show ?case by simp
qed

lemma test_run_of_test:
  assumes "test A m test_loader epsilon = Inr (acc, adv)"
  shows "\<exists>st. test_run A m test_loader epsilon = Inr st
            \<and> acc = real (correct st) / real (length test_loader)
            \<and> adv = adv_examples st
            \<and> calls st = concat (map (sample_calls A m epsilon) test_loader)"
proof -
  obtain st where st: "test_run A m test_loader epsilon = Inr st"
    using assms by (cases "test_run A m test_loader epsilon") (auto simp: test_def)
  then have r: "acc = real (correct st) / real (length test_loader)" "adv = adv_examples st"
    using assms by (auto simp: test_def split: if_splits)
  have "test_loop A m epsilon \<lparr>correct = 0, adv_examples = [], calls = []\<rparr> test_loader = Inr st"
    using st by (simp add: test_run_def)
  from test_loop_Inr [OF this] st r show ?thesis by simp
qed

text \<open>
  C8. \<open>test\<close> is a structural recursion over the list of batches, so it ends on every
  loader. Whenever \<open>test\<close> returns, its accuracy and its examples are those of the state
  in which one pass over the loader ends, and the calls into the network that led to
  that state are, batch after batch in the order of the loader, the calls for that
  batch: they start with the forward pass on the data of the batch and hold at most two
  forward passes and at most one backward pass, so that the pass makes at most \<open>2 n\<close>
  forward and \<open>n\<close> backward passes on \<open>n\<close> batches. An exception of \<open>test\<close> is an
  exception of the pass, or the division by the length of an empty loader. With a
  gradient of the shape of the data, a network of at least one class and a std that is
  not zero the pass raises nothing.
\<close>

theorem test_single_pass:
  "(\<forall>acc adv. test A m test_loader epsilon = Inr (acc, adv) \<longrightarrow>
      (\<exists>st. test_run A m test_loader epsilon = Inr st
          \<and> acc = real (correct st) / real (length test_loader)
          \<and> adv = adv_examples st
          \<and> calls st = concat (map (sample_calls A m epsilon) test_loader)))
   \<and> (\<forall>e. test A m test_loader epsilon = Inl e \<longrightarrow>
         test_run A m test_loader epsilon = Inl e \<or> (test_loader = [] \<and> e = ZeroDivisionError))
   \<and> (\<forall>st. test_run A m test_loader epsilon = Inr st \<longrightarrow>
         calls st = concat (map (sample_calls A m epsilon) test_loader)
         \<and> map hd (map (sample_calls A m epsilon) test_loader)
             = map (\<lambda>b. Forward (fst b)) test_loader
         \<and> length (filter is_Forward (calls st)) \<le> 2 * length test_loader
         \<and> length (filter is_Backward (calls st)) \<le> 1 * length test_loader
         \<and> (\<forall>b \<in> set test_loader.
               length (filter is_Forward (sample_calls A m epsilon b)) \<le> 2
               \<and> length (filter is_Backward (sample_calls A m epsilon b)) \<le> 1))
   \<and> (autograd_shaped m \<and> scores_nonempty m \<and> std_nonzero A
        \<and> list_all (\<lambda>b. wf_tensor (fst b)) test_loader
      \<longrightarrow> (\<exists>st. test_run A m test_loader epsilon = Inr st)
          \<and> (test_loader \<noteq> [] \<longrightarrow> (\<exists>r. test A m test_loader epsilon = Inr r)))"
proof (intro conjI allI impI ballI)
  fix acc adv
  assume "test A m test_loader epsilon = Inr (acc, adv)"
  then show "\<exists>st. test_run A m test_loader epsilon = Inr st
               \<and> acc = real (correct st) / real (length test_loader)
               \<and> adv = adv_examples st
               \<and> calls st = concat (map (sample_calls A m epsilon) test_loader)"
    by (rule test_run_of_test)
next
  fix e
  assume "test A m test_loader epsilon = Inl e"
  then show "test_run A m test_loader epsilon = Inl e
             \<or> (test_loader = [] \<and> e = ZeroDivisionError)"
    by (cases "test_run A m test_loader epsilon") (auto simp: test_def split: if_splits)
next
  fix st
  assume "test_run A m test_loader epsilon = Inr st"
  then have "test_loop A m epsilon \<lparr>correct = 0, adv_examples = [], calls = []\<rparr> test_loader
             = Inr st"
    by (simp add: test_run_def)
  from test_loop_Inr [OF this]
  have c: "calls st = concat (map (sample_calls A m epsilon) test_loader)" by simp
  show "calls st = concat (map (sample_calls A m epsilon) test_loader)" by (rule c)
  show "length (filter is_Forward (calls st)) \<le> 2 * length test_loader"
    unfolding c
    by (rule filter_concat_bound)
      (rule sample_calls_shape [THEN conjunct2, THEN conjunct2, THEN conjunct1])
  show "length (filter is_Backward (calls st)) \<le> 1 * length test_loader"
    unfolding c
    by (rule filter_concat_bound)
      (rule sample_calls_shape [THEN conjunct2, THEN conjunct2, THEN conjunct2])
next
  show "map hd (map (sample_calls A m epsilon) test_loader)
        = map (\<lambda>b. Forward (fst b)) test_loader"
    by (simp add: sample_calls_shape)
next
  fix b
  show "length (filter is_Forward (sample_calls A m epsilon b)) \<le> 2"
    by (rule sample_calls_shape [THEN conjunct2, THEN conjunct2, THEN conjunct1])
  show "length (filter is_Backward (sample_calls A m epsilon b)) \<le> 1"
    by (rule sample_calls_shape [THEN conjunct2, THEN conjunct2, THEN conjunct2])
next
  assume "autograd_shaped m \<and> scores_nonempty m \<and> std_nonzero A
          \<and> list_all (\<lambda>b. wf_tensor (fst b)) test_loader"
  then show "\<exists>st. test_run A m test_loader epsilon = Inr st"
    unfolding test_run_def using test_loop_total by blast
next
  assume "autograd_shaped m \<and> scores_nonempty m \<and> std_nonzero A
          \<and> list_all (\<lambda>b. wf_tensor (fst b)) test_loader"
    and "test_loader \<noteq> []"
  then show "\<exists>r. test A m test_loader epsilon = Inr r"
    using test_value [of m A test_loader epsilon] by blast
qed

theorem test_single_pass_witness:
  "test exact (toy_model (1000 / 3081) (1 / 20)) [(px 0, 0), (px 0, 1)] (1 / 10)
     = Inr (0, [(0, 1, \<lparr>shape = [], elems = [2307 / 10000]\<rparr>)])
   \<and> (\<exists>st. test_run exact (toy_model (1000 / 3081) (1 / 20)) [(px 0, 0), (px 0, 1)] (1 / 10)
             = Inr st
          \<and> (0 :: real) = real (correct st) / real (length [(px 0 :: real tensor, 0 :: nat), (px 0, 1)])
          \<and> [(0, 1, \<lparr>shape = [], elems = [2307 / 10000]\<rparr>)] = adv_examples st
          \<and> calls st = [Forward (px 0), Backward (px 0), Forward (px (1000 / 3081)),
                         Forward (px 0)])
   \<and> autograd_shaped (toy_model (1000 / 3081) (1 / 20))
   \<and> scores_nonempty (toy_model (1000 / 3081) (1 / 20))
   \<and> std_nonzero exact
   \<and> list_all (\<lambda>b. wf_tensor (fst b)) [(px 0 :: real tensor, 0 :: nat), (px 0, 1)]"
proof -
  have w: "list_all (\<lambda>b. wf_tensor (fst b)) [(px 0 :: real tensor, 0 :: nat), (px 0, 1)]"
    by (simp add: wf_px)
  have t: "test exact (toy_model (1000 / 3081) (1 / 20)) [(px 0, 0), (px 0, 1)] (1 / 10)
            = Inr (0, [(0, 1, \<lparr>shape = [], elems = [2307 / 10000]\<rparr>)])"
    by (simp add: test_toy wf_px still_correct_toy_px offered_toy_px
        clamp_val_def power2_eq_square Let_def)
  have c: "concat (map (sample_calls exact (toy_model (1000 / 3081) (1 / 20)) (1 / 10))
                    [(px 0, 0), (px 0, 1)])
           = [Forward (px 0), Backward (px 0), Forward (px (1000 / 3081)), Forward (px 0)]"
    by (simp add: sample_calls_toy_px clamp_val_def power2_eq_square)
  from test_single_pass [of exact "toy_model (1000 / 3081) (1 / 20)" "[(px 0, 0), (px 0, 1)]"
      "1 / 10"] t
  obtain st where
    "test_run exact (toy_model (1000 / 3081) (1 / 20)) [(px 0, 0), (px 0, 1)] (1 / 10) = Inr st"
    "(0 :: real) = real (correct st) / real (length [(px 0 :: real tensor, 0 :: nat), (px 0, 1)])"
    "[(0, 1, \<lparr>shape = [], elems = [2307 / 10000]\<rparr>)] = adv_examples st"
    "calls st = concat (map (sample_calls exact (toy_model (1000 / 3081) (1 / 20)) (1 / 10))
                          [(px 0, 0), (px 0, 1)])"
    by blast
  then show ?thesis
    using t w c autograd_shaped_toy scores_nonempty_toy std_nonzero_exact by auto
qed

section \<open>The pass with epsilon 0 in float32\<close>

lemma std_nonzero_float32: "std_nonzero float32"
  by (simp add: std_nonzero_def round32_eval)

lemma autograd_shaped_toy32: "autograd_shaped (toy_model32 a c)"
  by (simp add: autograd_shaped_def toy_model32_def tmap_def wf_tensor_def)

lemma scores_nonempty_toy32: "scores_nonempty (toy_model32 a c)"
  by (simp add: scores_nonempty_def toy_model32_def)

lemma forward_toy32_px:
  "forward (toy_model32 a c) (px x) = [val32 (mul32 (sub32 x a) (sub32 x a)), c]"
  by (simp add: toy_model32_def px_def)

lemma input_grad_toy32_px:
  "input_grad (toy_model32 a c) (px x) t
   = px (if t = 0 then mul32 (Fin (- 2)) (sub32 x a) else Fin 0)"
  by (simp add: toy_model32_def px_def tmap_def)

lemma test_toy32:
  assumes "list_all (\<lambda>b. wf_tensor (fst b)) loader" and "loader \<noteq> []"
  shows "test float32 (toy_model32 a c) loader epsilon
         = Inr (real (length (filter (still_correct float32 (toy_model32 a c) epsilon) loader))
                  / real (length loader),
                take 5 (concat (map (offered float32 (toy_model32 a c) epsilon) loader)))"
  by (rule test_value [OF autograd_shaped_toy32 scores_nonempty_toy32 std_nonzero_float32 assms])

lemma mnist_batch32_19: "mnist_batch32 19 = px (Fin (- (1529885 / 8388608)))"
  by (simp add: mnist_batch32_def sub32_def round32_eval)

lemma ulp_model_facts:
  "autograd_shaped ulp_model" "scores_nonempty ulp_model"
  by (simp_all add: ulp_model_def autograd_shaped_toy32 scores_nonempty_toy32)

lemma initially_correct_19:
  "initially_correct ulp_model (px (Fin (- (1529885 / 8388608))), 0)"
  by (simp add: ulp_model_def initially_correct_def forward_toy32_px max_index_two sub32_def
      round32_eval)

lemma attack_19:
  "attack float32 ulp_model 0 (px (Fin (- (1529885 / 8388608))), 0)
   = Inr (px (Fin (5000269 / 67108864)), px (Fin (- (12239079 / 67108864))), 1)"
proof -
  have d: "denorm_pixel float32 (Fin (- (1529885 / 8388608))) = Fin (5000269 / 67108864)"
    by (simp add: denorm_pixel_def round32_eval)
  have p: "\<And>g. perturb_pixel float32 0 (Fin (5000269 / 67108864)) g = Fin (5000269 / 67108864)"
    by (rule perturb_pixel32_zero) (simp add: round32_eval)
  have n: "normalize_pixel float32 (Fin (5000269 / 67108864)) = Fin (- (12239079 / 67108864))"
    by (simp add: normalize_pixel_def sub32_def round32_eval)
  have g: "input_grad ulp_model (px (Fin (- (1529885 / 8388608)))) 0
           = px (mul32 (Fin (- 2)) (sub32 (Fin (- (1529885 / 8388608)))
                                          (Fin (- (12239079 / 67108864)))))"
    by (simp add: ulp_model_def input_grad_toy32_px)
  show ?thesis
    using attack_px [OF std_nonzero_float32 g, of 0]
    by (simp add: d p n ulp_model_def forward_toy32_px max_index_two sub32_def round32_0)
qed

lemma test_ulp_19:
  "test float32 ulp_model [(px (Fin (- (1529885 / 8388608))), 0)] 0
   = Inr (0, [(0, 1, \<lparr>shape = [], elems = [Fin (5000269 / 67108864)]\<rparr>)])"
proof -
  have t: "test float32 ulp_model [(px (Fin (- (1529885 / 8388608))), 0)] 0
           = Inr (real (length (filter (still_correct float32 ulp_model 0)
                                  [(px (Fin (- (1529885 / 8388608))), 0)]))
                    / real (length [(px (Fin (- (1529885 / 8388608))), 0 :: nat)]),
                  take 5 (concat (map (offered float32 ulp_model 0)
                                    [(px (Fin (- (1529885 / 8388608))), 0)])))"
    by (rule test_value [OF ulp_model_facts std_nonzero_float32]) (simp_all add: wf_px)
  show ?thesis
    unfolding t
    by (simp add: still_correct_def offered_def initially_correct_19 attack_19 squeeze_px)
qed

text \<open>
  C5, as stated, fails in float32 on both counts. The pixel 0.1 and epsilon 0.2 are
  rounded to float32, and so is their sum: with a positive gradient entry the returned
  pixel is \<open>5033165 / 2\<^sup>2\<^sup>4\<close>, further than 0.2 from the pixel of the input. And the run
  with epsilon 0 does not measure the accuracy of the network on the data: \<open>fgsm_attack\<close>
  returns its image unchanged, but \<open>test\<close> applies \<open>denorm\<close> before it and \<open>Normalize\<close>
  after it, which in float32 do not give back the batch that the loader makes of the
  byte 19. The network \<open>ulp_model\<close> classifies that batch correctly, and \<open>test\<close> with
  epsilon 0 returns the accuracy 0 for it.
\<close>

theorem fgsm_attack_within_epsilon_counterexample:
  "round32 (1 / 10) = Fin (13421773 / 134217728)
   \<and> fgsm_attack float32 (px (Fin (13421773 / 134217728))) (1 / 5) (px (Fin 1))
       = Inr (px (Fin (5033165 / 16777216)))
   \<and> (1 / 5 :: real) < \<bar>5033165 / 16777216 - 13421773 / 134217728\<bar>
   \<and> initially_correct ulp_model (mnist_batch32 19, 0)
   \<and> fgsm_attack float32 (px (Fin (5000269 / 67108864))) 0
        (input_grad ulp_model (mnist_batch32 19) 0) = Inr (px (Fin (5000269 / 67108864)))
   \<and> (\<exists>adv. test float32 ulp_model [(mnist_batch32 19, 0)] 0 = Inr (0, adv))"
proof -
  have a: "round32 (1 / 10) = Fin (13421773 / 134217728)
     \<and> fgsm_attack float32 (px (Fin (13421773 / 134217728))) (1 / 5) (px (Fin 1))
         = Inr (px (Fin (5033165 / 16777216)))
     \<and> (1 / 5 :: real) < \<bar>5033165 / 16777216 - 13421773 / 134217728\<bar>"
    by (simp add: fgsm_attack_px perturb_pixel32 clamp32_Fin clamp_val_def round32_eval)
  have u: "unit_pixel (Fin (5000269 / 67108864))" by (simp add: round32_eval)
  have b: "fgsm_attack float32 (px (Fin (5000269 / 67108864))) 0
        (input_grad ulp_model (mnist_batch32 19) 0) = Inr (px (Fin (5000269 / 67108864)))"
    by (simp add: mnist_batch32_19 ulp_model_def input_grad_toy32_px fgsm_attack_px
        perturb_pixel32_zero [OF u])
  show ?thesis
    using a b initially_correct_19 test_ulp_19 by (simp add: mnist_batch32_19)
qed

section \<open>The stored examples\<close>

lemma offered_elem:
  assumes "e \<in> set (offered A m epsilon b)"
  shows "initially_correct m b
       \<and> (\<exists>pd pn fp. attack A m epsilon b = Inr (pd, pn, fp) \<and> e = (snd b, fp, squeeze pd)
             \<and> (fp = snd b \<longrightarrow> epsilon = 0))"
proof -
  have ic: "initially_correct m b"
  proof (rule ccontr)
    assume "\<not> initially_correct m b"
    then have "offered A m epsilon b = []" by (simp add: offered_def)
    then show False using assms by simp
  qed
  have "\<exists>r. attack A m epsilon b = Inr r"
  proof (cases "attack A m epsilon b")
    case (Inl x)
    then show ?thesis using assms ic by (simp add: offered_def)
  next
    case (Inr r)
    then show ?thesis by blast
  qed
  then obtain pd pn fp where a: "attack A m epsilon b = Inr (pd, pn, fp)"
    by (metis prod_cases3)
  have o: "offered A m epsilon b =
           (if fp = snd b \<longrightarrow> epsilon = 0 then [(snd b, fp, squeeze pd)] else [])"
    using ic a by (simp add: offered_def)
  have c: "fp = snd b \<longrightarrow> epsilon = 0"
  proof (rule ccontr)
    assume "\<not> (fp = snd b \<longrightarrow> epsilon = 0)"
    then have "offered A m epsilon b = []" using o by simp
    then show False using assms by simp
  qed
  then have "e = (snd b, fp, squeeze pd)" using o assms by simp
  then show ?thesis using ic a c by blast
qed

lemma attack_final_pred:
  assumes "attack A m epsilon b = Inr (pd, pn, fp)"
  shows "max_index (forward m pn) = Inr fp"
  using assms by (auto simp: attack_def ebind_case split: sum.splits)

lemma adv_elem:
  assumes "test A m loader epsilon = Inr (acc, adv)" and "e \<in> set adv"
  shows "\<exists>b \<in> set loader. e \<in> set (offered A m epsilon b)"
proof -
  have "adv = take 5 (concat (map (offered A m epsilon) loader))"
    using test_Inr [OF assms(1)] by simp
  then have "e \<in> set (concat (map (offered A m epsilon) loader))"
    using assms(2) by (auto dest: in_set_takeD)
  then show ?thesis by auto
qed

text \<open>
  C9, amended. In every arithmetic, the list \<open>adv_examples\<close> that \<open>test\<close> returns holds
  the first five, in the order of the loader, of the examples that the batches offer,
  so at most five. Every stored entry comes from a batch that the network classifies
  correctly before the attack, and holds the label of that batch, the prediction of the
  network on the attacked and re-normalised image, and the attacked image squeezed. For
  \<open>epsilon \<noteq> 0\<close> the stored prediction differs from the label. For epsilon 0 the stored
  prediction is the label whenever the re-normalised image is the data of the batch,
  which float32 does not guarantee.
\<close>

theorem adv_examples_stored:
  assumes "test A m test_loader epsilon = Inr (acc, adv)"
  shows "length adv \<le> 5
       \<and> adv = take 5 (concat (map (offered A m epsilon) test_loader))
       \<and> (\<forall>e \<in> set adv. \<exists>b \<in> set test_loader. \<exists>pd pn fp.
             initially_correct m b \<and> attack A m epsilon b = Inr (pd, pn, fp)
             \<and> e = (snd b, fp, squeeze pd)
             \<and> (epsilon \<noteq> 0 \<longrightarrow> fp \<noteq> snd b)
             \<and> (pn = fst b \<longrightarrow> fp = snd b))"
proof (intro conjI ballI)
  show "length adv \<le> 5" using test_Inr [OF assms] by simp
next
  show "adv = take 5 (concat (map (offered A m epsilon) test_loader))"
    using test_Inr [OF assms] by simp
next
  fix e
  assume e: "e \<in> set adv"
  from adv_elem [OF assms e] obtain b where b: "b \<in> set test_loader"
    and o: "e \<in> set (offered A m epsilon b)" by blast
  from offered_elem [OF o] obtain pd pn fp where ic: "initially_correct m b"
    and a: "attack A m epsilon b = Inr (pd, pn, fp)" and ee: "e = (snd b, fp, squeeze pd)"
    and z: "fp = snd b \<longrightarrow> epsilon = 0" by blast
  have "pn = fst b \<longrightarrow> fp = snd b"
    using attack_final_pred [OF a] ic by (auto simp: initially_correct_def)
  then show "\<exists>b \<in> set test_loader. \<exists>pd pn fp.
             initially_correct m b \<and> attack A m epsilon b = Inr (pd, pn, fp)
             \<and> e = (snd b, fp, squeeze pd)
             \<and> (epsilon \<noteq> 0 \<longrightarrow> fp \<noteq> snd b)
             \<and> (pn = fst b \<longrightarrow> fp = snd b)"
    using b ic a ee z by blast
qed

theorem adv_examples_stored_witness:
  "test exact (toy_model (1000 / 3081) (1 / 20)) [(px 0, 0), (px 0, 1)] (1 / 10)
     = Inr (0, [(0, 1, \<lparr>shape = [], elems = [2307 / 10000]\<rparr>)])
   \<and> length [(0 :: nat, 1 :: nat, \<lparr>shape = [], elems = [2307 / 10000 :: real]\<rparr>)] \<le> 5
   \<and> list_all (\<lambda>e. \<exists>b \<in> set [(px 0, 0), (px 0, 1)]. \<exists>pd pn fp.
         initially_correct (toy_model (1000 / 3081) (1 / 20)) b
         \<and> attack exact (toy_model (1000 / 3081) (1 / 20)) (1 / 10) b = Inr (pd, pn, fp)
         \<and> e = (snd b, fp, squeeze pd) \<and> fp \<noteq> snd b)
       [(0, 1, \<lparr>shape = [], elems = [2307 / 10000]\<rparr>)]
   \<and> test exact (toy_model (1000 / 3081) (1 / 20)) [(px 0, 0), (px 0, 1)] 0
     = Inr (1 / 2, [(0, 0, \<lparr>shape = [], elems = [1307 / 10000]\<rparr>)])
   \<and> list_all (\<lambda>e. \<exists>b \<in> set [(px 0, 0), (px 0, 1)]. \<exists>pd pn fp.
         initially_correct (toy_model (1000 / 3081) (1 / 20)) b
         \<and> attack exact (toy_model (1000 / 3081) (1 / 20)) 0 b = Inr (pd, pn, fp)
         \<and> e = (snd b, fp, squeeze pd))
       [(0, 0, \<lparr>shape = [], elems = [1307 / 10000]\<rparr>)]"
proof -
  have t0: "test exact (toy_model (1000 / 3081) (1 / 20)) [(px 0, 0), (px 0, 1)] 0
            = Inr (1 / 2, [(0, 0, \<lparr>shape = [], elems = [1307 / 10000]\<rparr>)])"
    by (simp add: test_toy wf_px still_correct_toy_px offered_toy_px
        clamp_val_def power2_eq_square Let_def)
  have t1: "test exact (toy_model (1000 / 3081) (1 / 20)) [(px 0, 0), (px 0, 1)] (1 / 10)
            = Inr (0, [(0, 1, \<lparr>shape = [], elems = [2307 / 10000]\<rparr>)])"
    by (simp add: test_toy wf_px still_correct_toy_px offered_toy_px
        clamp_val_def power2_eq_square Let_def)
  have n: "(1 / 10 :: real) \<noteq> 0" by simp
  from adv_examples_stored [OF t1] n
  have a1: "list_all (\<lambda>e. \<exists>b \<in> set [(px 0, 0), (px 0, 1)]. \<exists>pd pn fp.
         initially_correct (toy_model (1000 / 3081) (1 / 20)) b
         \<and> attack exact (toy_model (1000 / 3081) (1 / 20)) (1 / 10) b = Inr (pd, pn, fp)
         \<and> e = (snd b, fp, squeeze pd) \<and> fp \<noteq> snd b)
       [(0, 1, \<lparr>shape = [], elems = [2307 / 10000]\<rparr>)]"
    unfolding list_all_iff by blast
  from adv_examples_stored [OF t0]
  have a0: "list_all (\<lambda>e. \<exists>b \<in> set [(px 0, 0), (px 0, 1)]. \<exists>pd pn fp.
         initially_correct (toy_model (1000 / 3081) (1 / 20)) b
         \<and> attack exact (toy_model (1000 / 3081) (1 / 20)) 0 b = Inr (pd, pn, fp)
         \<and> e = (snd b, fp, squeeze pd))
       [(0, 0, \<lparr>shape = [], elems = [1307 / 10000]\<rparr>)]"
    unfolding list_all_iff by blast
  show ?thesis using t0 t1 a0 a1 by simp
qed

text \<open>
  C9, as stated, fails for epsilon 0 in float32 on a batch as the loader makes it. The
  batch of the byte 19 holds \<open>- 1529885 / 2\<^sup>2\<^sup>3\<close>; \<open>denorm\<close> makes \<open>5000269 / 2\<^sup>2\<^sup>6\<close> of it,
  \<open>fgsm_attack\<close> with epsilon 0 leaves that unchanged, and \<open>Normalize\<close> makes
  \<open>- 12239079 / 2\<^sup>2\<^sup>6\<close>, one float32 above the entry of the batch. The network \<open>ulp_model\<close>
  answers 0, the label, on the batch and 1 on the re-normalised image: the example is
  stored with the prediction 1.
\<close>

theorem adv_examples_zero_epsilon_misclassified:
  "mnist_batch32 19 = px (Fin (- (1529885 / 8388608)))
   \<and> test float32 ulp_model [(mnist_batch32 19, 0)] 0
     = Inr (0, [(0, 1, \<lparr>shape = [], elems = [Fin (5000269 / 67108864)]\<rparr>)])"
  using test_ulp_19 by (simp add: mnist_batch32_19)

section \<open>The order of the batches\<close>

lemma length_filter_mset: "mset ys = mset xs \<Longrightarrow> length (filter P ys) = length (filter P xs)"
proof -
  assume "mset ys = mset xs"
  then have "mset (filter P ys) = mset (filter P xs)" by simp
  then show ?thesis by (rule mset_eq_length)
qed

lemma mset_concat_map: "mset ys = mset xs \<Longrightarrow> mset (concat (map f ys)) = mset (concat (map f xs))"
proof -
  assume a: "mset ys = mset xs"
  have "\<And>zs. mset (concat (map f zs)) = (\<Sum>z \<in># mset zs. mset (f z))"
    by (induct_tac zs) simp_all
  then show ?thesis using a by simp
qed

text \<open>
  C10, amended. The loader is built with \<open>shuffle=True\<close>: each pass yields the batches of
  the test set in an order of its own. In every arithmetic, two runs of \<open>test\<close> over the
  same batches return the same accuracy whatever the two orders are; they return the
  same examples when the orders are the same, and the same examples up to their order
  when at most five are offered.
\<close>

theorem test_order_independent:
  assumes "mset ys = mset xs"
    and "test A m xs epsilon = Inr (acc1, adv1)" and "test A m ys epsilon = Inr (acc2, adv2)"
  shows "acc2 = acc1 \<and> (ys = xs \<longrightarrow> adv2 = adv1)
       \<and> (length (concat (map (offered A m epsilon) xs)) \<le> 5 \<longrightarrow> mset adv2 = mset adv1)"
proof (intro conjI impI)
  have "length ys = length xs" using assms(1) by (rule mset_eq_length)
  then show "acc2 = acc1"
    using test_Inr [OF assms(2)] test_Inr [OF assms(3)]
      length_filter_mset [OF assms(1), of "still_correct A m epsilon"]
    by simp
next
  assume "ys = xs"
  then show "adv2 = adv1" using assms(2,3) by simp
next
  assume l: "length (concat (map (offered A m epsilon) xs)) \<le> 5"
  have p: "mset (concat (map (offered A m epsilon) ys))
           = mset (concat (map (offered A m epsilon) xs))"
    by (rule mset_concat_map [OF assms(1)])
  then have "length (concat (map (offered A m epsilon) ys)) \<le> 5"
    using l mset_eq_length by fastforce
  then show "mset adv2 = mset adv1"
    using test_Inr [OF assms(2)] test_Inr [OF assms(3)] l p by simp
qed

theorem test_order_independent_witness:
  "mset [(px 0, 1), (px (0 :: real), 0 :: nat)] = mset [(px 0, 0), (px 0, 1)]
   \<and> test exact (toy_model (1000 / 3081) (1 / 20)) [(px 0, 0), (px 0, 1)] (1 / 10)
       = Inr (0, [(0, 1, \<lparr>shape = [], elems = [2307 / 10000]\<rparr>)])
   \<and> test exact (toy_model (1000 / 3081) (1 / 20)) [(px 0, 1), (px 0, 0)] (1 / 10)
       = Inr (0, [(0, 1, \<lparr>shape = [], elems = [2307 / 10000]\<rparr>)])
   \<and> length (concat (map (offered exact (toy_model (1000 / 3081) (1 / 20)) (1 / 10))
                        [(px 0, 0), (px 0, 1)])) \<le> 5
   \<and> mset [(0 :: nat, 1 :: nat, \<lparr>shape = [], elems = [2307 / 10000 :: real]\<rparr>)]
       = mset [(0, 1, \<lparr>shape = [], elems = [2307 / 10000]\<rparr>)]"
proof -
  have p: "mset [(px 0, 1), (px (0 :: real), 0 :: nat)] = mset [(px 0, 0), (px 0, 1)]"
    by (simp add: add_mset_commute)
  have t1: "test exact (toy_model (1000 / 3081) (1 / 20)) [(px 0, 0), (px 0, 1)] (1 / 10)
            = Inr (0, [(0, 1, \<lparr>shape = [], elems = [2307 / 10000]\<rparr>)])"
    by (simp add: test_toy wf_px still_correct_toy_px offered_toy_px
        clamp_val_def power2_eq_square Let_def)
  have t2: "test exact (toy_model (1000 / 3081) (1 / 20)) [(px 0, 1), (px 0, 0)] (1 / 10)
            = Inr (0, [(0, 1, \<lparr>shape = [], elems = [2307 / 10000]\<rparr>)])"
    by (simp add: test_toy wf_px still_correct_toy_px offered_toy_px
        clamp_val_def power2_eq_square Let_def)
  have l: "length (concat (map (offered exact (toy_model (1000 / 3081) (1 / 20)) (1 / 10))
                        [(px 0, 0), (px 0, 1)])) \<le> 5"
    by (simp add: offered_toy_px clamp_val_def power2_eq_square Let_def)
  from test_order_independent [OF p t1 t2] p t1 t2 l show ?thesis by simp
qed

text \<open>
  C10, as stated, fails: on six batches that the attack fools, a pass in one order and a
  pass in the reverse order store different examples.
\<close>

theorem adv_examples_depend_on_order:
  "mset (rev six_batches) = mset six_batches
   \<and> test exact (toy_model (1000 / 3081) (1 / 20)) six_batches (1 / 10)
       = Inr (0, [(0, 1, \<lparr>shape = [], elems = [230700 / 1000000]\<rparr>),
                  (0, 1, \<lparr>shape = [], elems = [233781 / 1000000]\<rparr>),
                  (0, 1, \<lparr>shape = [], elems = [236862 / 1000000]\<rparr>),
                  (0, 1, \<lparr>shape = [], elems = [239943 / 1000000]\<rparr>),
                  (0, 1, \<lparr>shape = [], elems = [243024 / 1000000]\<rparr>)])
   \<and> test exact (toy_model (1000 / 3081) (1 / 20)) (rev six_batches) (1 / 10)
       = Inr (0, [(0, 1, \<lparr>shape = [], elems = [246105 / 1000000]\<rparr>),
                  (0, 1, \<lparr>shape = [], elems = [243024 / 1000000]\<rparr>),
                  (0, 1, \<lparr>shape = [], elems = [239943 / 1000000]\<rparr>),
                  (0, 1, \<lparr>shape = [], elems = [236862 / 1000000]\<rparr>),
                  (0, 1, \<lparr>shape = [], elems = [233781 / 1000000]\<rparr>)])"
  by (simp add: six_batches_def test_toy wf_px still_correct_toy_px offered_toy_px
      clamp_val_def power2_eq_square Let_def)

end
